theory Spec2Isabelle
  imports Main "HOL-Library.Word" "HOL-Library.Multiset"
begin

section \<open>The profiler trace reader and writer (easy\_profiler\_core/reader.cpp)\<close>

text \<open>
  A shallow embedding of \<^verbatim>\<open>reader.cpp\<close>: the statistics update, the decoder
  \<^verbatim>\<open>fillTreesFromStream\<close>, the range selector \<^verbatim>\<open>findRange\<close> and the encoder
  \<^verbatim>\<open>writeTreesToStream\<close> with its serializers.

  Conventions. Fixed-width integers of the source are words of the same width. An index into
  the \<^verbatim>\<open>blocks\<close> vector (\<^verbatim>\<open>block_index_t\<close>) is a natural number. A pointer into a
  serialized pool is the record it points at; a null pointer is \<open>None\<close>. Every
  \<^verbatim>\<open>return 0\<close> of the source is an \<open>error\<close> value, one constructor per log message;
  an access that is undefined behaviour in C++ (a null dereference, an index outside a vector)
  is the error \<open>InvalidAccess\<close>.
\<close>

subsection \<open>Data model\<close>

type_synonym timestamp_t = "64 word"
type_synonym block_id_t = "32 word"
type_synonym thread_id_t = "64 word"
type_synonym processid_t = "64 word"
type_synonym block_index_t = nat

datatype BlockType = Event | Block | Value

text \<open>
  A record of the blocks pool. \<^verbatim>\<open>BlocksTree\<close> holds a union of three pointers
  (\<^verbatim>\<open>node\<close>, \<^verbatim>\<open>cs\<close>, \<^verbatim>\<open>value\<close>) to the same bytes; the source reads begin and end
  through either view, so the model keeps one record for all three: \<open>m_id\<close> and \<open>m_name\<close>
  are the block view (for a context switch, its name), \<open>m_size\<close> is \<^verbatim>\<open>data_size()\<close> of
  the value view.
\<close>

record SerializedBlock =
  m_begin :: timestamp_t
  m_end :: timestamp_t
  m_id :: block_id_t
  m_name :: string
  m_size :: "16 word"

text \<open>
  Modelled from the spec: \<^verbatim>\<open>duration()\<close> of the record classes, declared in the
  profiler's headers, which are not among the sources: the span from the begin to the end
  timestamp, in unsigned 64-bit arithmetic.
\<close>

definition duration :: "SerializedBlock \<Rightarrow> timestamp_t" where
  "duration b = m_end b - m_begin b"

record SerializedBlockDescriptor =
  d_id :: block_id_t
  d_line :: "32 word"
  d_type :: BlockType
  d_name :: string
  d_file :: string

type_synonym descriptors_list_t = "SerializedBlockDescriptor option list"

record BlocksTree =
  node :: SerializedBlock
  children :: "block_index_t list"
  depth :: "8 word"

type_synonym blocks_t = "BlocksTree list"

record BlockStatistics =
  total_duration :: timestamp_t
  total_children_duration :: timestamp_t
  min_duration_block :: block_index_t
  max_duration_block :: block_index_t
  parent_block :: block_index_t
  calls_number :: "32 word"

datatype error =
    Interrupted
  | WrongSignature
  | IncompatibleVersion
  | BlocksNumberZero
  | MemorySizeZero
  | DescriptorsNumberZero
  | DescriptorsMemorySizeZero
  | BadCSwitchSize
  | CSwitchesDataCorrupted
  | BadBlockSize
  | BlocksDataCorrupted
  | BadBlockId
  | DescriptionIsNull
  | StackDepthExceeded
  | NothingToSave
  | InvalidAccess

subsection \<open>Statistics\<close>

text \<open>
  Modelled from the spec: the constructor \<^verbatim>\<open>BlockStatistics(duration, block_index,
  parent_index)\<close> of \<^verbatim>\<open>easy/reader.h\<close>, which is not among the sources: one call, the
  occurrence's duration as total, no children duration, and the occurrence as both the
  longest and the shortest one.
\<close>

definition new_BlockStatistics :: "timestamp_t \<Rightarrow> block_index_t \<Rightarrow> block_index_t \<Rightarrow> BlockStatistics" where
  "new_BlockStatistics d block_index parent_index =
     \<lparr>total_duration = d, total_children_duration = 0,
      min_duration_block = block_index, max_duration_block = block_index,
      parent_block = parent_index, calls_number = 1\<rparr>"

type_synonym StatsMap = "block_id_t \<rightharpoonup> BlockStatistics"

text \<open>\<^verbatim>\<open>_blocks[i]\<close>: outside the vector the access is undefined behaviour.\<close>

definition block_at :: "blocks_t \<Rightarrow> block_index_t \<Rightarrow> error + BlocksTree" where
  "block_at bs i = (if i < length bs then Inr (bs ! i) else Inl InvalidAccess)"

text \<open>The loop \<^verbatim>\<open>for (auto i : _current.children) stats->total_children_duration += ...\<close>.\<close>

fun add_children_duration :: "blocks_t \<Rightarrow> block_index_t list \<Rightarrow> BlockStatistics \<Rightarrow> error + BlockStatistics" where
  "add_children_duration bs [] stats = Inr stats"
| "add_children_duration bs (i # is) stats =
     (case block_at bs i of
        Inl e \<Rightarrow> Inl e
      | Inr c \<Rightarrow> add_children_duration bs is
          (stats\<lparr>total_children_duration := total_children_duration stats + duration (node c)\<rparr>))"

text \<open>
  \<^verbatim>\<open>update_statistics(StatsMap&, ...)\<close>. The map owns one statistics object per key and the
  function returns the pointer to it; the model returns the map with the key's object updated.
\<close>

definition update_statistics ::
  "StatsMap \<Rightarrow> BlocksTree \<Rightarrow> block_index_t \<Rightarrow> block_index_t \<Rightarrow> blocks_t \<Rightarrow> bool \<Rightarrow> error + StatsMap" where
  "update_statistics stats_map current current_index parent_index bs calculate_children =
     (let d = duration (node current) in
      case stats_map (m_id (node current)) of
        Some stats0 \<Rightarrow>
          (let stats1 = stats0\<lparr>calls_number := calls_number stats0 + 1\<rparr>;
               stats2 = stats1\<lparr>total_duration := total_duration stats1 + d\<rparr>
           in case (if calculate_children then add_children_duration bs (children current) stats2
                    else Inr stats2) of
                Inl e \<Rightarrow> Inl e
              | Inr stats3 \<Rightarrow>
                 (case block_at bs (max_duration_block stats3) of
                    Inl e \<Rightarrow> Inl e
                  | Inr mx \<Rightarrow>
                     (let stats4 = (if duration (node mx) < d
                                    then stats3\<lparr>max_duration_block := current_index\<rparr> else stats3)
                      in case block_at bs (min_duration_block stats4) of
                           Inl e \<Rightarrow> Inl e
                         | Inr mn \<Rightarrow>
                            (let stats5 = (if d < duration (node mn)
                                           then stats4\<lparr>min_duration_block := current_index\<rparr> else stats4)
                             in Inr (stats_map(m_id (node current) \<mapsto> stats5))))))
      | None \<Rightarrow>
          (let stats = new_BlockStatistics d current_index parent_index
           in case (if calculate_children then add_children_duration bs (children current) stats
                    else Inr stats) of
                Inl e \<Rightarrow> Inl e
              | Inr stats' \<Rightarrow> Inr (stats_map(m_id (node current) \<mapsto> stats'))))"

text \<open>
  The per-thread aggregation: the decoder calls
  \<^verbatim>\<open>update_statistics(per_thread_statistics, tree, block_index, ~0U, blocks)\<close> once for every
  block it attaches; \<open>aggregate\<close> is that sequence of calls for the occurrences \<open>is\<close>.
\<close>

fun aggregate :: "StatsMap \<Rightarrow> blocks_t \<Rightarrow> block_index_t list \<Rightarrow> error + StatsMap" where
  "aggregate stats_map bs [] = Inr stats_map"
| "aggregate stats_map bs (i # is) =
     (case block_at bs i of
        Inl e \<Rightarrow> Inl e
      | Inr current \<Rightarrow>
         (case update_statistics stats_map current i 4294967295 bs True of
            Inl e \<Rightarrow> Inl e
          | Inr stats_map' \<Rightarrow> aggregate stats_map' bs is))"

text \<open>
  An occurrence of key \<open>k\<close>: a block of the vector whose descriptor id is \<open>k\<close> and whose
  children are blocks of the vector.
\<close>

definition occurrence :: "blocks_t \<Rightarrow> block_id_t \<Rightarrow> block_index_t \<Rightarrow> bool" where
  "occurrence bs k i \<longleftrightarrow>
     i < length bs \<and> m_id (node (bs ! i)) = k \<and> (\<forall>c\<in>set (children (bs ! i)). c < length bs)"

definition three_calls :: blocks_t where
  "three_calls =
     [\<lparr>node = \<lparr>m_begin = 0, m_end = 5, m_id = 7, m_name = [], m_size = 0\<rparr>, children = [], depth = 0\<rparr>,
      \<lparr>node = \<lparr>m_begin = 10, m_end = 13, m_id = 7, m_name = [], m_size = 0\<rparr>, children = [], depth = 0\<rparr>,
      \<lparr>node = \<lparr>m_begin = 20, m_end = 29, m_id = 7, m_name = [], m_size = 0\<rparr>, children = [], depth = 0\<rparr>]"

subsection \<open>Streams and the progress cell\<close>

text \<open>
  A stream is a sequence of fields. \<open>Num\<close> is one fixed-size integer field (2, 4 or 8 bytes),
  \<open>Chars\<close> the characters of a thread name, \<open>Desc\<close> and \<open>Data\<close> the payload of one
  descriptor or of one block or context-switch record, already parsed: the byte layout of the
  serialized classes is declared in headers that are not among the sources. The two-byte
  length that precedes a payload is a \<open>Num\<close> of its own, as the source reads and checks it
  separately.
\<close>

datatype token =
    Num nat
  | Chars string
  | Desc SerializedBlockDescriptor
  | Data SerializedBlock

text \<open>
  The progress cell is an atomic integer that other threads may write at any time. \<open>pending\<close>
  lists, for each coming access of this call, the value an external writer has left in the cell
  since the previous access (\<open>None\<close>: nobody wrote).
\<close>

record progress_cell =
  cell :: int
  pending :: "int option list"

definition observed :: "progress_cell \<Rightarrow> int" where
  "observed p = (case pending p of Some v # _ \<Rightarrow> v | _ \<Rightarrow> cell p)"

text \<open>\<^verbatim>\<open>progress.exchange(new_value)\<close> and \<^verbatim>\<open>progress.store(new_value)\<close>.\<close>

definition exchange :: "progress_cell \<Rightarrow> int \<Rightarrow> int \<times> progress_cell" where
  "exchange p new_value = (observed p, \<lparr>cell = new_value, pending = tl (pending p)\<rparr>)"

definition store :: "progress_cell \<Rightarrow> int \<Rightarrow> progress_cell" where
  "store p new_value = \<lparr>cell = new_value, pending = tl (pending p)\<rparr>"

text \<open>
  \<^verbatim>\<open>update_progress\<close> and \<^verbatim>\<open>update_progress_write\<close> differ in the log message only.
\<close>

definition update_progress :: "progress_cell \<Rightarrow> int \<Rightarrow> bool \<times> progress_cell" where
  "update_progress p new_value =
     (let (oldprogress, p') = exchange p new_value
      in if oldprogress < 0 then (False, p') else (True, p'))"

definition update_progress_write :: "progress_cell \<Rightarrow> int \<Rightarrow> bool \<times> progress_cell" where
  "update_progress_write p new_value =
     (let (oldprogress, p') = exchange p new_value
      in if oldprogress < 0 then (False, p') else (True, p'))"

text \<open>
  The history of a call, kept beside the state to state properties of the run: every read from
  or write to the stream, and every exchange on the progress cell with the value it found.
\<close>

datatype event = StreamIO | Exchange int

subsection \<open>Range selection\<close>

text \<open>
  \<^verbatim>\<open>std::lower_bound(first, last, value, comp)\<close> as the standard library implements it: a
  binary search on the length of the remaining range. \<open>cmp\<close> is the comparison
  \<^verbatim>\<open>comp\<close> with the value already supplied.
\<close>

function lower_bound :: "('a \<Rightarrow> bool) \<Rightarrow> 'a list \<Rightarrow> nat \<Rightarrow> nat \<Rightarrow> nat" where
  "lower_bound cmp xs first len =
     (if len = 0 then first
      else let half = len div 2; middle = first + half
           in if cmp (xs ! middle) then lower_bound cmp xs (middle + 1) (len - half - 1)
              else lower_bound cmp xs first half)"
  by pat_completeness auto
termination
  by (relation "measure (\<lambda>(cmp, xs, first, len). len)") auto

declare lower_bound.simps [simp del]

record BlocksRange =
  range_begin :: block_index_t
  range_end :: block_index_t

type_synonym block_getter_fn = "block_index_t \<Rightarrow> BlocksTree"

text \<open>
  \<^verbatim>\<open>findRange\<close>. The \<^verbatim>\<open>for\<close> loop of the source after the first search only reads
  children and breaks; it changes nothing and is left out.
\<close>

definition findRange :: "block_index_t list \<Rightarrow> timestamp_t \<Rightarrow> timestamp_t \<Rightarrow> block_getter_fn \<Rightarrow> BlocksRange" where
  "findRange chn beginTime endTime getter =
     (let sz = length chn;
          rng = \<lparr>range_begin = sz, range_end = sz\<rparr>;
          first_it = lower_bound (\<lambda>element. m_end (node (getter element)) < beginTime) chn 0 sz
      in if first_it \<noteq> sz \<and> m_begin (node (getter (chn ! first_it))) \<le> endTime
         then let last_it = lower_bound (\<lambda>element. m_begin (node (getter element)) \<le> endTime) chn 0 sz
              in if last_it \<noteq> sz \<and> beginTime \<le> m_end (node (getter (chn ! last_it)))
                 then if first_it \<le> last_it
                      then \<lparr>range_begin = first_it, range_end = last_it\<rparr>
                      else rng
                 else rng
         else rng)"

subsection \<open>The encoder\<close>

text \<open>
  The sizes of the serialized classes (\<^verbatim>\<open>sizeof\<close>), declared in headers that are not among
  the sources, are parameters of the encoder.
\<close>

record layout =
  sizeof_SerializedBlock :: nat
  sizeof_ArbitraryValue :: nat
  sizeof_SerializedCSwitch :: nat
  sizeof_SerializedBlockDescriptor :: nat

record BlocksMemoryAndCount =
  usedMemorySize :: "64 word"
  blocksCount :: block_index_t

definition add_count :: "BlocksMemoryAndCount \<Rightarrow> BlocksMemoryAndCount \<Rightarrow> BlocksMemoryAndCount" where
  "add_count a another =
     \<lparr>usedMemorySize = usedMemorySize a + usedMemorySize another,
      blocksCount = blocksCount a + blocksCount another\<rparr>"

record BlocksAndCSwitchesRange =
  blocksMemoryAndCount :: BlocksMemoryAndCount
  cswitchesMemoryAndCount :: BlocksMemoryAndCount
  blocks_range :: BlocksRange
  cswitches_range :: BlocksRange

record BlocksTreeRoot =
  root_children :: "block_index_t list"
  sync :: "block_index_t list"
  events :: "block_index_t list"
  thread_name :: string
  thread_id :: thread_id_t
  profiled_time :: timestamp_t
  wait_time :: timestamp_t
  frames_number :: nat
  blocks_number :: nat
  root_depth :: "8 word"

type_synonym thread_blocks_tree_t = "(thread_id_t \<times> BlocksTreeRoot) list"

text \<open>\<^verbatim>\<open>v[i]\<close> on a vector and \<^verbatim>\<open>*descriptors[id]\<close>.\<close>

definition at :: "'a list \<Rightarrow> nat \<Rightarrow> error + 'a" where
  "at xs i = (if i < length xs then Inr (xs ! i) else Inl InvalidAccess)"

definition descriptor_at :: "descriptors_list_t \<Rightarrow> nat \<Rightarrow> error + SerializedBlockDescriptor" where
  "descriptor_at descriptors i =
     (if i < length descriptors
      then (case descriptors ! i of None \<Rightarrow> Inl InvalidAccess | Some d \<Rightarrow> Inr d)
      else Inl InvalidAccess)"

text \<open>
  \<^verbatim>\<open>calculateUsedMemoryAndBlocksCount\<close> for blocks. The recursion follows the children
  indices through the getter, which nothing bounds; \<open>fuel\<close> bounds the nesting, and \<open>None\<close>
  is a recursion that does not return within it. The list \<open>is\<close> holds the positions
  \<^verbatim>\<open>range.begin \<le> i < range.end\<close> still to visit, \<open>acc\<close> is \<^verbatim>\<open>memoryAndCount\<close>.
\<close>

fun count_blocks ::
  "nat \<Rightarrow> layout \<Rightarrow> block_getter_fn \<Rightarrow> descriptors_list_t \<Rightarrow> block_index_t list \<Rightarrow> nat list \<Rightarrow>
   BlocksMemoryAndCount \<Rightarrow> (error + BlocksMemoryAndCount) option" where
  "count_blocks 0 L getter descriptors chn is acc = None"
| "count_blocks (Suc fuel) L getter descriptors chn [] acc = Some (Inr acc)"
| "count_blocks (Suc fuel) L getter descriptors chn (i # is) acc =
     (case at chn i of
        Inl e \<Rightarrow> Some (Inl e)
      | Inr c \<Rightarrow>
         (let child = getter c in
          case descriptor_at descriptors (unat (m_id (node child))) of
            Inl e \<Rightarrow> Some (Inl e)
          | Inr desc \<Rightarrow>
             (let used = (if d_type desc = Value
                          then of_nat (sizeof_ArbitraryValue L) + ucast (m_size (node child))
                          else of_nat (sizeof_SerializedBlock L + length (m_name (node child)) + 1))
              in case count_blocks fuel L getter descriptors (children child)
                        [0 ..< length (children child)]
                        \<lparr>usedMemorySize = 0, blocksCount = 0\<rparr> of
                   None \<Rightarrow> None
                 | Some (Inl e) \<Rightarrow> Some (Inl e)
                 | Some (Inr childrenMemoryAndCount) \<Rightarrow>
                    (let acc1 = add_count acc childrenMemoryAndCount;
                         acc2 = acc1\<lparr>usedMemorySize := usedMemorySize acc1 + used\<rparr>;
                         acc3 = acc2\<lparr>blocksCount := blocksCount acc2 + 1\<rparr>
                     in count_blocks (Suc fuel) L getter descriptors chn is acc3))))"

text \<open>The same function for context switches (\<^verbatim>\<open>contextSwitches == true\<close>).\<close>

fun count_cswitches ::
  "layout \<Rightarrow> block_getter_fn \<Rightarrow> block_index_t list \<Rightarrow> nat list \<Rightarrow> BlocksMemoryAndCount \<Rightarrow>
   error + BlocksMemoryAndCount" where
  "count_cswitches L getter chn [] acc = Inr acc"
| "count_cswitches L getter chn (i # is) acc =
     (case at chn i of
        Inl e \<Rightarrow> Inl e
      | Inr c \<Rightarrow>
         (let child = getter c;
              used = of_nat (sizeof_SerializedCSwitch L + length (m_name (node child)) + 1);
              acc1 = acc\<lparr>usedMemorySize := usedMemorySize acc + used\<rparr>;
              acc2 = acc1\<lparr>blocksCount := blocksCount acc1 + 1\<rparr>
          in count_cswitches L getter chn is acc2))"

definition calculateUsedMemoryAndBlocksCount ::
  "nat \<Rightarrow> layout \<Rightarrow> block_index_t list \<Rightarrow> BlocksRange \<Rightarrow> block_getter_fn \<Rightarrow> descriptors_list_t \<Rightarrow> bool \<Rightarrow>
   (error + BlocksMemoryAndCount) option" where
  "calculateUsedMemoryAndBlocksCount fuel L chn rng getter descriptors contextSwitches =
     (if \<not> contextSwitches
      then count_blocks fuel L getter descriptors chn [range_begin rng ..< range_end rng]
             \<lparr>usedMemorySize = 0, blocksCount = 0\<rparr>
      else Some (count_cswitches L getter chn [range_begin rng ..< range_end rng]
             \<lparr>usedMemorySize = 0, blocksCount = 0\<rparr>))"

text \<open>
  \<^verbatim>\<open>serializeBlocks\<close>: the children first, then the block itself, as a two-byte length and
  the record; a block whose id differs from its descriptor's id is written with the
  descriptor's id. The result is the list of fields appended to the output.
\<close>

fun serializeBlocks ::
  "nat \<Rightarrow> layout \<Rightarrow> block_getter_fn \<Rightarrow> descriptors_list_t \<Rightarrow> block_index_t list \<Rightarrow> nat list \<Rightarrow>
   (error + token list) option" where
  "serializeBlocks 0 L getter descriptors chn is = None"
| "serializeBlocks (Suc fuel) L getter descriptors chn [] = Some (Inr [])"
| "serializeBlocks (Suc fuel) L getter descriptors chn (i # is) =
     (case at chn i of
        Inl e \<Rightarrow> Some (Inl e)
      | Inr c \<Rightarrow>
         (let child = getter c in
          case serializeBlocks fuel L getter descriptors (children child)
                 [0 ..< length (children child)] of
            None \<Rightarrow> None
          | Some (Inl e) \<Rightarrow> Some (Inl e)
          | Some (Inr below) \<Rightarrow>
             (case descriptor_at descriptors (unat (m_id (node child))) of
                Inl e \<Rightarrow> Some (Inl e)
              | Inr desc \<Rightarrow>
                 (let self =
                        (if d_type desc = Value
                         then [Num (unat ((of_nat (sizeof_ArbitraryValue L) :: 16 word) + m_size (node child))),
                               Data (node child)]
                         else [Num (unat ((of_nat (sizeof_SerializedBlock L + length (m_name (node child)) + 1)) :: 16 word)),
                               Data (if m_id (node child) \<noteq> d_id desc
                                     then (node child)\<lparr>m_id := d_id desc\<rparr> else node child)])
                  in case serializeBlocks (Suc fuel) L getter descriptors chn is of
                       None \<Rightarrow> None
                     | Some (Inl e) \<Rightarrow> Some (Inl e)
                     | Some (Inr rest) \<Rightarrow> Some (Inr (below @ self @ rest))))))"

fun serializeContextSwitches ::
  "layout \<Rightarrow> block_getter_fn \<Rightarrow> block_index_t list \<Rightarrow> nat list \<Rightarrow> error + token list" where
  "serializeContextSwitches L getter chn [] = Inr []"
| "serializeContextSwitches L getter chn (i # is) =
     (case at chn i of
        Inl e \<Rightarrow> Inl e
      | Inr c \<Rightarrow>
         (let child = getter c;
              self = [Num (unat ((of_nat (sizeof_SerializedCSwitch L + length (m_name (node child)) + 1)) :: 16 word)),
                      Data (node child)]
          in case serializeContextSwitches L getter chn is of
               Inl e \<Rightarrow> Inl e
             | Inr rest \<Rightarrow> Inr (self @ rest)))"

text \<open>
  \<^verbatim>\<open>serializeDescriptors\<close>: the loop over \<^verbatim>\<open>i < size\<close> (here \<open>sz\<close>), from position \<open>i\<close>. Each entry is
  dereferenced before its id is compared with \<open>i\<close>.
\<close>

function serializeDescriptors_from ::
  "layout \<Rightarrow> descriptors_list_t \<Rightarrow> nat \<Rightarrow> nat \<Rightarrow> error + token list" where
  "serializeDescriptors_from L descriptors sz i =
     (if i < sz
      then (case descriptor_at descriptors i of
              Inl e \<Rightarrow> Inl e
            | Inr desc \<Rightarrow>
               if unat (d_id desc) \<noteq> i then Inr []
               else (case serializeDescriptors_from L descriptors sz (i + 1) of
                       Inl e \<Rightarrow> Inl e
                     | Inr rest \<Rightarrow>
                        Inr ([Num (unat ((of_nat (sizeof_SerializedBlockDescriptor L + length (d_name desc)
                                                  + length (d_file desc) + 2)) :: 16 word)),
                              Desc desc] @ rest)))
      else Inr [])"
  by pat_completeness auto
termination
  by (relation "measure (\<lambda>(L, descriptors, sz, i). sz - i)") auto

declare serializeDescriptors_from.simps [simp del]

definition serializeDescriptors :: "layout \<Rightarrow> descriptors_list_t \<Rightarrow> block_id_t \<Rightarrow> error + token list" where
  "serializeDescriptors L descriptors descriptors_count =
     serializeDescriptors_from L descriptors (min (length descriptors) (unat descriptors_count)) 0"

text \<open>
  The state of the writer: the fields written to the output stream so far, the progress cell
  and the history.
\<close>

record wstate =
  str :: "token list"
  wprogress :: progress_cell
  wevents :: "event list"

text \<open>\<^verbatim>\<open>if (!update_progress_write(progress, v, log)) return 0;\<close>\<close>

definition checkpoint_write :: "wstate \<Rightarrow> int \<Rightarrow> (error \<times> wstate) + wstate" where
  "checkpoint_write st v =
     (let (ok, p') = update_progress_write (wprogress st) v;
          st' = st\<lparr>wprogress := p', wevents := wevents st @ [Exchange (observed (wprogress st))]\<rparr>
      in if \<not> ok then Inl (Interrupted, st') else Inr st')"

definition write_fields :: "wstate \<Rightarrow> token list \<Rightarrow> wstate" where
  "write_fields st ts = st\<lparr>str := str st @ ts, wevents := wevents st @ [StreamIO]\<rparr>"

record ranges_acc =
  total :: BlocksMemoryAndCount
  beginTime :: timestamp_t
  endTime :: timestamp_t
  block_ranges :: "thread_id_t \<rightharpoonup> BlocksAndCSwitchesRange"

text \<open>
  The first loop of \<^verbatim>\<open>writeTreesToStream\<close> over the threads still to visit, \<open>n\<close> being
  \<^verbatim>\<open>trees.size()\<close>. The map of threads is the list of its entries in iteration order. After
  context switches are counted the source reads \<^verbatim>\<open>tree.children\<close>, not \<^verbatim>\<open>tree.sync\<close>, at
  the positions of the context-switch range; the model does the same.
\<close>

fun calculate_ranges ::
  "nat \<Rightarrow> layout \<Rightarrow> descriptors_list_t \<Rightarrow> block_getter_fn \<Rightarrow> timestamp_t \<Rightarrow> timestamp_t \<Rightarrow> nat \<Rightarrow>
   thread_blocks_tree_t \<Rightarrow> nat \<Rightarrow> ranges_acc \<Rightarrow> wstate \<Rightarrow> ((error \<times> wstate) + (ranges_acc \<times> wstate)) option" where
  "calculate_ranges fuel L descriptors getter begin_time end_time n [] i acc st = Some (Inr (acc, st))"
| "calculate_ranges fuel L descriptors getter begin_time end_time n ((tid, tree) # rest) i acc st =
     (let blocks_r = findRange (root_children tree) begin_time end_time getter;
          cswitches_r = findRange (sync tree) begin_time end_time getter
      in case calculateUsedMemoryAndBlocksCount fuel L (root_children tree) blocks_r getter descriptors False of
           None \<Rightarrow> None
         | Some (Inl e) \<Rightarrow> Some (Inl (e, st))
         | Some (Inr bmc) \<Rightarrow>
            (let total1 = add_count (total acc) bmc in
             case (if blocksCount bmc \<noteq> 0
                   then (case at (root_children tree) (range_begin blocks_r) of
                           Inl e \<Rightarrow> Inl e
                         | Inr f \<Rightarrow>
                            (case at (root_children tree) (range_end blocks_r - 1) of
                               Inl e \<Rightarrow> Inl e
                             | Inr l \<Rightarrow> Inr (min (beginTime acc) (m_begin (node (getter f))),
                                              max (endTime acc) (m_end (node (getter l))))))
                   else Inr (beginTime acc, endTime acc)) of
               Inl e \<Rightarrow> Some (Inl (e, st))
             | Inr (beginTime1, endTime1) \<Rightarrow>
                (case calculateUsedMemoryAndBlocksCount fuel L (sync tree) cswitches_r getter descriptors True of
                   None \<Rightarrow> None
                 | Some (Inl e) \<Rightarrow> Some (Inl (e, st))
                 | Some (Inr cmc) \<Rightarrow>
                    (let total2 = add_count total1 cmc in
                     case (if blocksCount cmc \<noteq> 0
                           then (case at (root_children tree) (range_begin cswitches_r) of
                                   Inl e \<Rightarrow> Inl e
                                 | Inr f \<Rightarrow>
                                    (case at (root_children tree) (range_end cswitches_r - 1) of
                                       Inl e \<Rightarrow> Inl e
                                     | Inr l \<Rightarrow> Inr (min beginTime1 (m_begin (node (getter f))),
                                                      max endTime1 (m_end (node (getter l))))))
                           else Inr (beginTime1, endTime1)) of
                       Inl e \<Rightarrow> Some (Inl (e, st))
                     | Inr (beginTime2, endTime2) \<Rightarrow>
                        (let rng = \<lparr>blocksMemoryAndCount = bmc, cswitchesMemoryAndCount = cmc,
                                    blocks_range = blocks_r, cswitches_range = cswitches_r\<rparr>;
                             acc' = \<lparr>total = total2, beginTime = beginTime2, endTime = endTime2,
                                     block_ranges = (block_ranges acc)(tid \<mapsto> rng)\<rparr>
                         in case checkpoint_write st (15 div int (n - i)) of
                              Inl err \<Rightarrow> Some (Inl err)
                            | Inr st' \<Rightarrow>
                               calculate_ranges fuel L descriptors getter begin_time end_time n rest
                                 (i + 1) acc' st')))))"

text \<open>
  The second loop: one section per thread. The counter \<^verbatim>\<open>i\<close> is reset to 0 before the loop
  and not incremented in it.
\<close>

fun serialize_threads ::
  "nat \<Rightarrow> layout \<Rightarrow> descriptors_list_t \<Rightarrow> block_getter_fn \<Rightarrow> nat \<Rightarrow>
   (thread_id_t \<rightharpoonup> BlocksAndCSwitchesRange) \<Rightarrow> thread_blocks_tree_t \<Rightarrow> wstate \<Rightarrow>
   ((error \<times> wstate) + wstate) option" where
  "serialize_threads fuel L descriptors getter n ranges [] st = Some (Inr st)"
| "serialize_threads fuel L descriptors getter n ranges ((tid, tree) # rest) st =
     (case ranges tid of
        None \<Rightarrow> Some (Inl (InvalidAccess, st))
      | Some rng \<Rightarrow>
         (let nameSize = (of_nat (length (thread_name tree) + 1) :: 16 word);
              st1 = write_fields st [Num (unat tid)];
              st2 = write_fields st1 [Num (unat nameSize)];
              st3 = write_fields st2 [Chars (thread_name tree)];
              st4 = write_fields st3 [Num (blocksCount (cswitchesMemoryAndCount rng))]
          in case (if blocksCount (cswitchesMemoryAndCount rng) \<noteq> 0
                   then serializeContextSwitches L getter (sync tree)
                          [range_begin (cswitches_range rng) ..< range_end (cswitches_range rng)]
                   else Inr []) of
               Inl e \<Rightarrow> Some (Inl (e, st4))
             | Inr cs_fields \<Rightarrow>
                (let st5 = (if blocksCount (cswitchesMemoryAndCount rng) \<noteq> 0 then write_fields st4 cs_fields else st4);
                     st6 = write_fields st5 [Num (blocksCount (blocksMemoryAndCount rng))]
                 in case (if blocksCount (blocksMemoryAndCount rng) \<noteq> 0
                          then serializeBlocks fuel L getter descriptors (root_children tree)
                                 [range_begin (blocks_range rng) ..< range_end (blocks_range rng)]
                          else Some (Inr [])) of
                      None \<Rightarrow> None
                    | Some (Inl e) \<Rightarrow> Some (Inl (e, st6))
                    | Some (Inr block_fields) \<Rightarrow>
                       (let st7 = (if blocksCount (blocksMemoryAndCount rng) \<noteq> 0 then write_fields st6 block_fields else st6)
                        in case checkpoint_write st7 (40 + 60 div int n) of
                             Inl err \<Rightarrow> Some (Inl err)
                           | Inr st8 \<Rightarrow> serialize_threads fuel L descriptors getter n ranges rest st8))))"

text \<open>
  \<^verbatim>\<open>writeTreesToStream\<close>. \<open>signature\<close> and \<open>version\<close> are the constants
  \<^verbatim>\<open>PROFILER_SIGNATURE\<close> and \<^verbatim>\<open>EASY_CURRENT_VERSION\<close>, defined outside the sources;
  \<open>descriptors_size\<close> is \<^verbatim>\<open>serialized_descriptors.size()\<close>. The result is the number of
  records written, or the error with the state at the return.
\<close>

definition writeTreesToStream ::
  "nat \<Rightarrow> layout \<Rightarrow> 32 word \<Rightarrow> 32 word \<Rightarrow> 64 word \<Rightarrow> descriptors_list_t \<Rightarrow> block_id_t \<Rightarrow>
   thread_blocks_tree_t \<Rightarrow> block_getter_fn \<Rightarrow> timestamp_t \<Rightarrow> timestamp_t \<Rightarrow> processid_t \<Rightarrow> wstate \<Rightarrow>
   ((error \<times> wstate) + (nat \<times> wstate)) option" where
  "writeTreesToStream fuel L signature version descriptors_size descriptors descriptors_count trees
       block_getter begin_time end_time pid st =
     (if trees = [] \<or> descriptors_size = 0 \<or> descriptors_count = 0
      then Some (Inl (NothingToSave, st))
      else
        case calculate_ranges fuel L descriptors block_getter begin_time end_time (length trees) trees 0
               \<lparr>total = \<lparr>usedMemorySize = 0, blocksCount = 0\<rparr>, beginTime = begin_time,
                endTime = end_time, block_ranges = Map.empty\<rparr> st of
          None \<Rightarrow> None
        | Some (Inl err) \<Rightarrow> Some (Inl err)
        | Some (Inr (acc, st1)) \<Rightarrow>
           if blocksCount (total acc) = 0 then Some (Inl (NothingToSave, st1))
           else
             (let usedMemorySizeDescriptors = descriptors_size + ucast descriptors_count * 2;
                  st2 = write_fields st1 [Num (unat signature)];
                  st3 = write_fields st2 [Num (unat version)];
                  st4 = write_fields st3 [Num (unat pid)];
                  st5 = write_fields st4 [Num 0];
                  st6 = write_fields st5 [Num (unat (beginTime acc))];
                  st7 = write_fields st6 [Num (unat (endTime acc))];
                  st8 = write_fields st7 [Num (unat (usedMemorySize (total acc)))];
                  st9 = write_fields st8 [Num (unat usedMemorySizeDescriptors)];
                  st10 = write_fields st9 [Num (blocksCount (total acc))];
                  st11 = write_fields st10 [Num (unat descriptors_count)]
              in case serializeDescriptors L descriptors descriptors_count of
                   Inl e \<Rightarrow> Some (Inl (e, st11))
                 | Inr desc_fields \<Rightarrow>
                    (case serialize_threads fuel L descriptors block_getter (length trees)
                            (block_ranges acc) trees (write_fields st11 desc_fields) of
                       None \<Rightarrow> None
                     | Some (Inl err) \<Rightarrow> Some (Inl err)
                     | Some (Inr st12) \<Rightarrow> Some (Inr (blocksCount (total acc), st12)))))"

subsection \<open>The decoder\<close>

text \<open>
  The input stream. A read past the end sets \<open>eofbit\<close> (with the fail bit, which the model
  does not keep apart); from then on every read fails and leaves its destination as it was.
  A read that meets a field of another kind fails likewise: such a stream is not the image of a
  byte stream the reader would accept.
\<close>

record istream =
  toks :: "token list"
  eofbit :: bool

definition read_num :: "istream \<Rightarrow> nat option \<times> istream" where
  "read_num s =
     (if eofbit s then (None, s)
      else case toks s of Num n # rest \<Rightarrow> (Some n, s\<lparr>toks := rest\<rparr>) | _ \<Rightarrow> (None, s\<lparr>eofbit := True\<rparr>))"

definition read_chars :: "istream \<Rightarrow> string option \<times> istream" where
  "read_chars s =
     (if eofbit s then (None, s)
      else case toks s of Chars n # rest \<Rightarrow> (Some n, s\<lparr>toks := rest\<rparr>) | _ \<Rightarrow> (None, s\<lparr>eofbit := True\<rparr>))"

definition read_desc :: "istream \<Rightarrow> SerializedBlockDescriptor option \<times> istream" where
  "read_desc s =
     (if eofbit s then (None, s)
      else case toks s of Desc d # rest \<Rightarrow> (Some d, s\<lparr>toks := rest\<rparr>) | _ \<Rightarrow> (None, s\<lparr>eofbit := True\<rparr>))"

definition read_data :: "istream \<Rightarrow> SerializedBlock option \<times> istream" where
  "read_data s =
     (if eofbit s then (None, s)
      else case toks s of Data b # rest \<Rightarrow> (Some b, s\<lparr>toks := rest\<rparr>) | _ \<Rightarrow> (None, s\<lparr>eofbit := True\<rparr>))"

text \<open>
  The pools are allocated with \<^verbatim>\<open>new char[n]\<close>; a payload whose read failed is whatever the
  allocation held. The model reads such bytes as zeros.
\<close>

definition unread_descriptor :: SerializedBlockDescriptor where
  "unread_descriptor = \<lparr>d_id = 0, d_line = 0, d_type = Event, d_name = [], d_file = []\<rparr>"

definition unread_block :: SerializedBlock where
  "unread_block = \<lparr>m_begin = 0, m_end = 0, m_id = 0, m_name = [], m_size = 0\<rparr>"

text \<open>
  Modelled from the spec: the default constructors of \<^verbatim>\<open>BlocksTree\<close> and
  \<^verbatim>\<open>BlocksTreeRoot\<close> (\<^verbatim>\<open>easy/reader.h\<close>, not among the sources): no children, depth 0, all
  counters 0.
\<close>

definition new_BlocksTree :: "SerializedBlock \<Rightarrow> BlocksTree" where
  "new_BlocksTree b = \<lparr>node = b, children = [], depth = 0\<rparr>"

definition new_BlocksTreeRoot :: BlocksTreeRoot where
  "new_BlocksTreeRoot =
     \<lparr>root_children = [], sync = [], events = [], thread_name = [], thread_id = 0,
      profiled_time = 0, wait_time = 0, frames_number = 0, blocks_number = 0, root_depth = 0\<rparr>"

record EasyFileHeader =
  signature :: "32 word"
  version :: "32 word"
  pid :: processid_t
  cpu_frequency :: "64 word"
  begin_time :: timestamp_t
  end_time :: timestamp_t
  memory_size :: "64 word"
  descriptors_memory_size :: "64 word"
  total_blocks_number :: "32 word"
  total_descriptors_number :: "32 word"

definition new_EasyFileHeader :: EasyFileHeader where
  "new_EasyFileHeader =
     \<lparr>signature = 0, version = 0, pid = 0, cpu_frequency = 0, begin_time = 0, end_time = 0,
      memory_size = 0, descriptors_memory_size = 0, total_blocks_number = 0,
      total_descriptors_number = 0\<rparr>"

definition MIN_COMPATIBLE_VERSION :: "32 word" where "MIN_COMPATIBLE_VERSION = 65536"
definition EASY_V_100 :: "32 word" where "EASY_V_100 = 16777216"
definition EASY_V_130 :: "32 word" where "EASY_V_130 = 16973824"
definition EASY_V_200 :: "32 word" where "EASY_V_200 = 33554432"

definition isCompatibleVersion :: "32 word \<Rightarrow> bool" where
  "isCompatibleVersion v \<longleftrightarrow> MIN_COMPATIBLE_VERSION \<le> v"

text \<open>
  The state of the decoder: the stream, the progress cell, the history, the output parameters
  (which the model takes to be empty at the call) and the locals that live across the loops.
\<close>

record dstate =
  inFile :: istream
  progress :: progress_cell
  history :: "event list"
  descriptors :: descriptors_list_t
  blocks :: blocks_t
  threaded_trees :: thread_blocks_tree_t
  identification_table :: "(string \<times> block_id_t) list"
  name_buf :: string
  pool_i :: "64 word"
  read_number :: "32 word"
  blocks_counter :: nat

type_synonym 'a result = "(error \<times> dstate) + 'a"

text \<open>\<^verbatim>\<open>if (!update_progress(progress, v, _log)) return 0;\<close>\<close>

definition checkpoint :: "dstate \<Rightarrow> int \<Rightarrow> dstate result" where
  "checkpoint st v =
     (let (ok, p') = update_progress (progress st) v;
          st' = st\<lparr>progress := p', history := history st @ [Exchange (observed (progress st))]\<rparr>
      in if \<not> ok then Inl (Interrupted, st') else Inr st')"

text \<open>
  \<^verbatim>\<open>inFile.read\<close> into an integer that holds \<open>d\<close>; the value of the field is cut to the
  width of the destination.
\<close>

definition get_num :: "dstate \<Rightarrow> 'a::len word \<Rightarrow> 'a word \<times> dstate" where
  "get_num st d =
     (let (r, s') = read_num (inFile st);
          st' = st\<lparr>inFile := s', history := history st @ [StreamIO]\<rparr>
      in (case r of Some n \<Rightarrow> of_nat n | None \<Rightarrow> d, st'))"

definition get_chars :: "dstate \<Rightarrow> string \<Rightarrow> string \<times> dstate" where
  "get_chars st d =
     (let (r, s') = read_chars (inFile st);
          st' = st\<lparr>inFile := s', history := history st @ [StreamIO]\<rparr>
      in (case r of Some n \<Rightarrow> n | None \<Rightarrow> d, st'))"

definition get_desc :: "dstate \<Rightarrow> SerializedBlockDescriptor \<times> dstate" where
  "get_desc st =
     (let (r, s') = read_desc (inFile st);
          st' = st\<lparr>inFile := s', history := history st @ [StreamIO]\<rparr>
      in (case r of Some n \<Rightarrow> n | None \<Rightarrow> unread_descriptor, st'))"

definition get_data :: "dstate \<Rightarrow> SerializedBlock \<times> dstate" where
  "get_data st =
     (let (r, s') = read_data (inFile st);
          st' = st\<lparr>inFile := s', history := history st @ [StreamIO]\<rparr>
      in (case r of Some n \<Rightarrow> n | None \<Rightarrow> unread_block, st'))"

text \<open>\<^verbatim>\<open>readHeader_v1\<close>: the header before version 2.0.0.\<close>

definition readHeader_v1 :: "EasyFileHeader \<Rightarrow> dstate \<Rightarrow> (EasyFileHeader \<times> dstate) result" where
  "readHeader_v1 header st =
     (let (pid', st1) =
            (if EASY_V_100 < version header
             then (if version header < EASY_V_130
                   then (let (old_pid, s) = get_num st (0 :: 32 word) in (ucast old_pid, s))
                   else get_num st (pid header))
             else (pid header, st));
          (freq, st2) = get_num st1 (cpu_frequency header);
          (bt, st3) = get_num st2 (begin_time header);
          (et, st4) = get_num st3 (end_time header);
          (tbn, st5) = get_num st4 (total_blocks_number header);
          h5 = header\<lparr>pid := pid', cpu_frequency := freq, begin_time := bt, end_time := et,
                      total_blocks_number := tbn\<rparr>
      in if tbn = 0 then Inl (BlocksNumberZero, st5)
         else let (ms, st6) = get_num st5 (memory_size h5) in
           if ms = 0 then Inl (MemorySizeZero, st6)
           else let (tdn, st7) = get_num st6 (total_descriptors_number h5) in
             if tdn = 0 then Inl (DescriptorsNumberZero, st7)
             else let (dms, st8) = get_num st7 (descriptors_memory_size h5) in
               if dms = 0 then Inl (DescriptorsMemorySizeZero, st8)
               else Inr (h5\<lparr>memory_size := ms, total_descriptors_number := tdn,
                             descriptors_memory_size := dms\<rparr>, st8))"

text \<open>\<^verbatim>\<open>readHeader_v2\<close>: the header from version 2.0.0 on.\<close>

definition readHeader_v2 :: "EasyFileHeader \<Rightarrow> dstate \<Rightarrow> (EasyFileHeader \<times> dstate) result" where
  "readHeader_v2 header st =
     (let (pid', st1) = get_num st (pid header);
          (freq, st2) = get_num st1 (cpu_frequency header);
          (bt, st3) = get_num st2 (begin_time header);
          (et, st4) = get_num st3 (end_time header);
          (ms, st5) = get_num st4 (memory_size header);
          h5 = header\<lparr>pid := pid', cpu_frequency := freq, begin_time := bt, end_time := et,
                      memory_size := ms\<rparr>
      in if ms = 0 then Inl (MemorySizeZero, st5)
         else let (dms, st6) = get_num st5 (descriptors_memory_size h5) in
           if dms = 0 then Inl (DescriptorsMemorySizeZero, st6)
           else let (tbn, st7) = get_num st6 (total_blocks_number h5) in
             if tbn = 0 then Inl (BlocksNumberZero, st7)
             else let (tdn, st8) = get_num st7 (total_descriptors_number h5) in
               if tdn = 0 then Inl (DescriptorsNumberZero, st8)
               else Inr (h5\<lparr>descriptors_memory_size := dms, total_blocks_number := tbn,
                             total_descriptors_number := tdn\<rparr>, st8))"

text \<open>\<^verbatim>\<open>static_cast<int>\<close> of an unsigned 64-bit value: the low 32 bits, read as signed.\<close>

definition to_int :: "64 word \<Rightarrow> int" where
  "to_int x = sint (ucast x :: 32 word)"

text \<open>
  One iteration of the loop that reads the descriptors; \<open>dms\<close> is
  \<^verbatim>\<open>descriptors_memory_size\<close>.
\<close>

definition read_descriptor :: "64 word \<Rightarrow> dstate \<Rightarrow> dstate result" where
  "read_descriptor dms st =
     (let (sz, st1) = get_num st (0 :: 16 word)
      in if sz = 0 then Inr (st1\<lparr>descriptors := descriptors st1 @ [None]\<rparr>)
         else let (descriptor, st2) = get_desc st1;
                  st3 = st2\<lparr>descriptors := descriptors st2 @ [Some descriptor]\<rparr>;
                  st4 = st3\<lparr>pool_i := pool_i st3 + ucast sz\<rparr>
              in checkpoint st4 (to_int (15 * pool_i st4 div dms)))"

lemma read_descriptor_size:
  "read_descriptor dms st = Inr st' \<Longrightarrow> length (descriptors st') = Suc (length (descriptors st))"
  by (auto simp: read_descriptor_def checkpoint_def get_num_def get_desc_def Let_def
           split: prod.splits if_splits)

text \<open>
  \<^verbatim>\<open>while (!inFile.eof() && descriptors.size() < total_descriptors_number)\<close>
\<close>

function read_descriptors :: "64 word \<Rightarrow> 32 word \<Rightarrow> dstate \<Rightarrow> dstate result" where
  "read_descriptors dms total_number st =
     (if \<not> eofbit (inFile st) \<and> length (descriptors st) < unat total_number
      then (case read_descriptor dms st of
              Inl err \<Rightarrow> Inl err
            | Inr st' \<Rightarrow> read_descriptors dms total_number st')
      else Inr st)"
  by pat_completeness auto
termination
  by (relation "measure (\<lambda>(dms, total_number, st). unat total_number - length (descriptors st))")
     (auto dest: read_descriptor_size)

declare read_descriptors.simps [simp del]

text \<open>\<^verbatim>\<open>threaded_trees[thread_id]\<close> and the assignment through that reference.\<close>

definition root_of :: "thread_blocks_tree_t \<Rightarrow> thread_id_t \<Rightarrow> BlocksTreeRoot" where
  "root_of trees tid = (case map_of trees tid of Some r \<Rightarrow> r | None \<Rightarrow> new_BlocksTreeRoot)"

fun set_root :: "thread_id_t \<Rightarrow> BlocksTreeRoot \<Rightarrow> thread_blocks_tree_t \<Rightarrow> thread_blocks_tree_t" where
  "set_root tid r [] = [(tid, r)]"
| "set_root tid r ((k, v) # rest) = (if k = tid then (tid, r) # rest else (k, v) # set_root tid r rest)"

text \<open>
  One iteration of the loop that reads the context switches of a thread. \<open>to_nano\<close> is
  \<^verbatim>\<open>EASY_CONVERT_TO_NANO\<close> for the frequency of the header, a multiplication in floating
  point that the model takes as a parameter; \<open>bt\<close> is the local \<^verbatim>\<open>begin_time\<close>.
\<close>

definition read_cswitch ::
  "(timestamp_t \<Rightarrow> timestamp_t) \<Rightarrow> EasyFileHeader \<Rightarrow> timestamp_t \<Rightarrow> thread_id_t \<Rightarrow> dstate \<Rightarrow> dstate result" where
  "read_cswitch to_nano header bt tid st =
     (let st0 = st\<lparr>read_number := read_number st + 1\<rparr>;
          (sz, st1) = get_num st0 (0 :: 16 word)
      in if sz = 0 then Inl (BadCSwitchSize, st1)
         else if memory_size header < pool_i st1 + ucast sz then Inl (CSwitchesDataCorrupted, st1)
         else
           let (d, st2) = get_data st1;
               st3 = st2\<lparr>pool_i := pool_i st2 + ucast sz\<rparr>;
               d1 = (if cpu_frequency header \<noteq> 0
                     then d\<lparr>m_begin := to_nano (m_begin d), m_end := to_nano (m_end d)\<rparr> else d);
               st4 = (if bt < m_end d1
                      then let d2 = (if m_begin d1 < bt then d1\<lparr>m_begin := bt\<rparr> else d1);
                               block_index = blocks_counter st3;
                               root = root_of (threaded_trees st3) tid;
                               root' = root\<lparr>wait_time := wait_time root + duration d2,
                                            sync := sync root @ [block_index]\<rparr>
                           in st3\<lparr>blocks := blocks st3 @ [new_BlocksTree d2],
                                  blocks_counter := blocks_counter st3 + 1,
                                  threaded_trees := set_root tid root' (threaded_trees st3)\<rparr>
                      else st3)
           in checkpoint st4 (20 + to_int (70 * pool_i st4 div memory_size header)))"

text \<open>
  The search for the first child that the new block encloses: the number of entries of the
  reversed children, after the last one, that begin at or after \<open>mt0\<close>.
\<close>

fun count_enclosed :: "blocks_t \<Rightarrow> timestamp_t \<Rightarrow> block_index_t list \<Rightarrow> error + nat" where
  "count_enclosed bs mt0 [] = Inr 0"
| "count_enclosed bs mt0 (c # cs) =
     (case block_at bs c of
        Inl e \<Rightarrow> Inl e
      | Inr b \<Rightarrow>
         if mt0 \<le> m_begin (node b)
         then (case count_enclosed bs mt0 cs of Inl e \<Rightarrow> Inl e | Inr k \<Rightarrow> Inr (Suc k))
         else Inr 0)"

text \<open>
  The loop over the new block's children that raises its depth to theirs; it is the same
  with and without statistics.
\<close>

fun max_depth :: "blocks_t \<Rightarrow> block_index_t list \<Rightarrow> 8 word \<Rightarrow> error + 8 word" where
  "max_depth bs [] dp = Inr dp"
| "max_depth bs (c # cs) dp =
     (case block_at bs c of
        Inl e \<Rightarrow> Inl e
      | Inr child \<Rightarrow> max_depth bs cs (if dp < depth child then depth child else dp))"

text \<open>\<^verbatim>\<open>blocks.back()\<close> is assigned through the reference \<^verbatim>\<open>tree\<close>.\<close>

definition set_back :: "blocks_t \<Rightarrow> BlocksTree \<Rightarrow> blocks_t" where
  "set_back bs t = bs[length bs - 1 := t]"

text \<open>
  The body of \<^verbatim>\<open>if (*t_end >= begin_time)\<close> for a block \<open>d\<close> with descriptor \<open>desc\<close>,
  timestamps converted and the begin clamped: the dynamic id of a block with a runtime name,
  the children the block encloses, its depth, and the attachment to the thread's root. The
  statistics updates of the source are not part of this function: they change neither the
  tree, nor the counters, nor the control flow (see \<open>update_statistics\<close>).
\<close>

definition attach_block ::
  "thread_id_t \<Rightarrow> SerializedBlock \<Rightarrow> SerializedBlockDescriptor \<Rightarrow> dstate \<Rightarrow> dstate result" where
  "attach_block tid d desc st =
     (let block_index = blocks_counter st;
          st1 = st\<lparr>blocks := blocks st @ [new_BlocksTree d], blocks_counter := blocks_counter st + 1\<rparr>
      in case (if m_name d \<noteq> []
               then (case map_of (identification_table st1) (m_name d) of
                       Some known \<Rightarrow> Inr (d\<lparr>m_id := known\<rparr>, st1)
                     | None \<Rightarrow>
                        (let new_id = (of_nat (length (descriptors st1)) :: block_id_t)
                         in case at (descriptors st1) (unat (m_id d)) of
                              Inl e \<Rightarrow> Inl (e, st1)
                            | Inr entry \<Rightarrow>
                               Inr (d\<lparr>m_id := new_id\<rparr>,
                                    st1\<lparr>identification_table := identification_table st1 @ [(m_name d, new_id)],
                                        descriptors := descriptors st1 @ [entry]\<rparr>)))
               else Inr (d, st1)) of
           Inl err \<Rightarrow> Inl err
         | Inr (d', st2) \<Rightarrow>
            (let st3 = st2\<lparr>blocks := set_back (blocks st2) (new_BlocksTree d')\<rparr>;
                 root = root_of (threaded_trees st3) tid
             in case (if root_children root \<noteq> []
                      then (case block_at (blocks st3) (last (root_children root)) of
                              Inl e \<Rightarrow> Inl (e, st3)
                            | Inr back \<Rightarrow>
                               if m_begin d' < m_end (node back)
                               then (case count_enclosed (blocks st3) (m_begin d') (tl (rev (root_children root))) of
                                       Inl e \<Rightarrow> Inl (e, st3)
                                     | Inr k \<Rightarrow>
                                        (let lower = length (root_children root) - 1 - k;
                                             tree_children = drop lower (root_children root);
                                             root1 = root\<lparr>root_children := take lower (root_children root)\<rparr>;
                                             st4 = st3\<lparr>threaded_trees := set_root tid root1 (threaded_trees st3)\<rparr>
                                         in case max_depth (blocks st4) tree_children 0 of
                                              Inl e \<Rightarrow> Inl (e, st4)
                                            | Inr dp \<Rightarrow>
                                               if dp = 254
                                               then Inl (StackDepthExceeded,
                                                      st4\<lparr>blocks := set_back (blocks st4)
                                                          \<lparr>node = d', children = tree_children, depth = dp\<rparr>\<rparr>)
                                               else Inr (root1,
                                                      st4\<lparr>blocks := set_back (blocks st4)
                                                          \<lparr>node = d', children = tree_children, depth = dp + 1\<rparr>\<rparr>)))
                               else Inr (root, st3))
                      else Inr (root, st3)) of
                  Inl err \<Rightarrow> Inl err
                | Inr (root2, st5) \<Rightarrow>
                   (let root3 = root2\<lparr>blocks_number := blocks_number root2 + 1\<rparr>;
                        root4 = root3\<lparr>root_children := root_children root3 @ [block_index]\<rparr>;
                        root5 = (if d_type desc \<noteq> Block then root4\<lparr>events := events root4 @ [block_index]\<rparr>
                                 else root4)
                    in Inr (st5\<lparr>threaded_trees := set_root tid root5 (threaded_trees st5)\<rparr>))))"

text \<open>One iteration of the loop that reads the blocks of a thread.\<close>

definition read_block ::
  "(timestamp_t \<Rightarrow> timestamp_t) \<Rightarrow> EasyFileHeader \<Rightarrow> timestamp_t \<Rightarrow> thread_id_t \<Rightarrow> dstate \<Rightarrow> dstate result" where
  "read_block to_nano header bt tid st =
     (let st0 = st\<lparr>read_number := read_number st + 1\<rparr>;
          (sz, st1) = get_num st0 (0 :: 16 word)
      in if sz = 0 then Inl (BadBlockSize, st1)
         else if memory_size header < pool_i st1 + ucast sz then Inl (BlocksDataCorrupted, st1)
         else
           let (d, st2) = get_data st1;
               st3 = st2\<lparr>pool_i := pool_i st2 + ucast sz\<rparr>
           in if total_descriptors_number header \<le> m_id d then Inl (BadBlockId, st3)
              else
                case at (descriptors st3) (unat (m_id d)) of
                  Inl e \<Rightarrow> Inl (e, st3)
                | Inr None \<Rightarrow> Inl (DescriptionIsNull, st3)
                | Inr (Some desc) \<Rightarrow>
                   (let d1 = (if cpu_frequency header \<noteq> 0
                              then d\<lparr>m_begin := to_nano (m_begin d), m_end := to_nano (m_end d)\<rparr> else d)
                    in case (if bt \<le> m_end d1
                             then attach_block tid (if m_begin d1 < bt then d1\<lparr>m_begin := bt\<rparr> else d1) desc st3
                             else Inr st3) of
                         Inl err \<Rightarrow> Inl err
                       | Inr st4 \<Rightarrow> checkpoint st4 (20 + to_int (70 * pool_i st4 div memory_size header))))"

text \<open>The loops over the records of a thread run until their counter reaches the threshold.\<close>

lemma get_num_read_number: "get_num st d = (v, st') \<Longrightarrow> read_number st' = read_number st"
  by (auto simp: get_num_def Let_def split: prod.splits)

lemma get_data_read_number: "get_data st = (v, st') \<Longrightarrow> read_number st' = read_number st"
  by (auto simp: get_data_def Let_def split: prod.splits)

lemma checkpoint_read_number: "checkpoint st v = Inr st' \<Longrightarrow> read_number st' = read_number st"
  by (auto simp: checkpoint_def Let_def split: prod.splits if_splits)

lemma read_cswitch_read_number:
  "read_cswitch to_nano header bt tid st = Inr st' \<Longrightarrow> read_number st' = read_number st + 1"
  by (auto simp: read_cswitch_def Let_def split: prod.splits if_splits
           dest!: get_num_read_number get_data_read_number checkpoint_read_number)

lemma attach_block_read_number:
  "attach_block tid d desc st = Inr st' \<Longrightarrow> read_number st' = read_number st"
  by (auto simp: attach_block_def Let_def split: prod.splits if_splits sum.splits option.splits)

lemma read_block_read_number:
  "read_block to_nano header bt tid st = Inr st' \<Longrightarrow> read_number st' = read_number st + 1"
  by (auto simp: read_block_def Let_def split: prod.splits if_splits sum.splits option.splits
           dest!: get_num_read_number get_data_read_number checkpoint_read_number attach_block_read_number)

lemma loop_measure:
  fixes n t :: "32 word"
  assumes "n < t"
  shows "unat t - unat (n + 1) < unat t - unat n"
proof -
  from assms have lt: "unat n < unat t" by (simp add: word_less_nat_alt)
  have "unat t < 2 ^ 32" using unsigned_less [of t] by simp
  with lt have "unat n + 1 < 2 ^ 32" by simp
  then have "unat (n + 1) = unat n + 1"
    by (simp add: unat_add_lem [THEN iffD1])
  with lt show ?thesis by simp
qed

function cswitch_loop ::
  "(timestamp_t \<Rightarrow> timestamp_t) \<Rightarrow> EasyFileHeader \<Rightarrow> timestamp_t \<Rightarrow> thread_id_t \<Rightarrow> 32 word \<Rightarrow> dstate \<Rightarrow>
   dstate result" where
  "cswitch_loop to_nano header bt tid threshold st =
     (if \<not> eofbit (inFile st) \<and> read_number st < threshold
      then (case read_cswitch to_nano header bt tid st of
              Inl err \<Rightarrow> Inl err
            | Inr st' \<Rightarrow> cswitch_loop to_nano header bt tid threshold st')
      else Inr st)"
  by pat_completeness auto
termination
  by (relation "measure (\<lambda>(to_nano, header, bt, tid, threshold, st). unat threshold - unat (read_number st))")
     (auto dest!: read_cswitch_read_number simp: loop_measure)

declare cswitch_loop.simps [simp del]

function block_loop ::
  "(timestamp_t \<Rightarrow> timestamp_t) \<Rightarrow> EasyFileHeader \<Rightarrow> timestamp_t \<Rightarrow> thread_id_t \<Rightarrow> 32 word \<Rightarrow> dstate \<Rightarrow>
   dstate result" where
  "block_loop to_nano header bt tid threshold st =
     (if \<not> eofbit (inFile st) \<and> read_number st < threshold
      then (case read_block to_nano header bt tid st of
              Inl err \<Rightarrow> Inl err
            | Inr st' \<Rightarrow> block_loop to_nano header bt tid threshold st')
      else Inr st)"
  by pat_completeness auto
termination
  by (relation "measure (\<lambda>(to_nano, header, bt, tid, threshold, st). unat threshold - unat (read_number st))")
     (auto dest!: read_block_read_number simp: loop_measure)

declare block_loop.simps [simp del]

text \<open>
  One iteration of \<^verbatim>\<open>while (!inFile.eof())\<close>, the section of one thread. Both
  \<^verbatim>\<open>break\<close> statements are taken with the end-of-file bit set, so the iteration returns
  and the loop condition ends the loop.
\<close>

definition read_thread ::
  "(timestamp_t \<Rightarrow> timestamp_t) \<Rightarrow> EasyFileHeader \<Rightarrow> timestamp_t \<Rightarrow> dstate \<Rightarrow> dstate result" where
  "read_thread to_nano header bt st =
     (let (tid, st1) = (if version header < EASY_V_130
                        then (let (t, s) = get_num st (0 :: 32 word) in (ucast t, s))
                        else get_num st (0 :: 64 word))
      in if eofbit (inFile st1) then Inr st1
         else
           let st2 = st1\<lparr>threaded_trees :=
                            set_root tid (root_of (threaded_trees st1) tid) (threaded_trees st1)\<rparr>;
               (name_size, st3) = get_num st2 (0 :: 16 word);
               st4 = (if name_size \<noteq> 0
                      then let (nm, s) = get_chars st3 (name_buf st3);
                               root = root_of (threaded_trees s) tid
                           in s\<lparr>name_buf := nm,
                                threaded_trees := set_root tid (root\<lparr>thread_name := nm\<rparr>) (threaded_trees s)\<rparr>
                      else st3);
               (n, st5) = get_num st4 (0 :: 32 word)
           in case cswitch_loop to_nano header bt tid (read_number st5 + n) st5 of
                Inl err \<Rightarrow> Inl err
              | Inr st6 \<Rightarrow>
                 if eofbit (inFile st6) then Inr st6
                 else let (n2, st7) = get_num st6 (0 :: 32 word)
                      in block_loop to_nano header bt tid (read_number st7 + n2) st7)"

lemma get_num_stream:
  "get_num st d = (v, st') \<Longrightarrow>
     length (toks (inFile st')) \<le> length (toks (inFile st)) \<and>
     (eofbit (inFile st) \<longrightarrow> eofbit (inFile st')) \<and>
     (\<not> eofbit (inFile st') \<longrightarrow> length (toks (inFile st')) < length (toks (inFile st)))"
  by (auto simp: get_num_def read_num_def Let_def split: prod.splits if_splits list.splits token.splits)

lemma get_chars_stream:
  "get_chars st d = (v, st') \<Longrightarrow>
     length (toks (inFile st')) \<le> length (toks (inFile st)) \<and>
     (eofbit (inFile st) \<longrightarrow> eofbit (inFile st'))"
  by (auto simp: get_chars_def read_chars_def Let_def split: prod.splits if_splits list.splits token.splits)

lemma get_desc_stream:
  "get_desc st = (v, st') \<Longrightarrow>
     length (toks (inFile st')) \<le> length (toks (inFile st)) \<and>
     (eofbit (inFile st) \<longrightarrow> eofbit (inFile st'))"
  by (auto simp: get_desc_def read_desc_def Let_def split: prod.splits if_splits list.splits token.splits)

lemma get_data_stream:
  "get_data st = (v, st') \<Longrightarrow>
     length (toks (inFile st')) \<le> length (toks (inFile st)) \<and>
     (eofbit (inFile st) \<longrightarrow> eofbit (inFile st'))"
  by (auto simp: get_data_def read_data_def Let_def split: prod.splits if_splits list.splits token.splits)

lemma checkpoint_stream: "checkpoint st v = Inr st' \<Longrightarrow> inFile st' = inFile st"
  by (auto simp: checkpoint_def Let_def split: prod.splits if_splits)

lemma attach_block_stream: "attach_block tid d desc st = Inr st' \<Longrightarrow> inFile st' = inFile st"
  by (auto simp: attach_block_def Let_def split: prod.splits if_splits sum.splits option.splits)

lemma read_cswitch_stream:
  "read_cswitch to_nano header bt tid st = Inr st' \<Longrightarrow>
     length (toks (inFile st')) \<le> length (toks (inFile st))"
  by (auto simp: read_cswitch_def Let_def split: prod.splits if_splits
           dest!: get_num_stream get_data_stream checkpoint_stream)

lemma read_block_stream:
  "read_block to_nano header bt tid st = Inr st' \<Longrightarrow>
     length (toks (inFile st')) \<le> length (toks (inFile st))"
  by (auto simp: read_block_def Let_def split: prod.splits if_splits sum.splits option.splits
           dest!: get_num_stream get_data_stream checkpoint_stream attach_block_stream)

lemma cswitch_loop_stream:
  "cswitch_loop to_nano header bt tid threshold st = Inr st' \<Longrightarrow>
     length (toks (inFile st')) \<le> length (toks (inFile st))"
proof (induction to_nano header bt tid threshold st rule: cswitch_loop.induct)
  case (1 to_nano header bt tid threshold st)
  show ?case
  proof (cases "\<not> eofbit (inFile st) \<and> read_number st < threshold")
    case True
    with "1.prems" obtain st1 where s: "read_cswitch to_nano header bt tid st = Inr st1"
      and l: "cswitch_loop to_nano header bt tid threshold st1 = Inr st'"
      by (auto simp: cswitch_loop.simps [of to_nano header bt tid threshold st] split: sum.splits)
    from "1.IH" [OF True s l] read_cswitch_stream [OF s] show ?thesis by simp
  next
    case False
    with "1.prems" show ?thesis
      by (auto simp: cswitch_loop.simps [of to_nano header bt tid threshold st])
  qed
qed

lemma block_loop_stream:
  "block_loop to_nano header bt tid threshold st = Inr st' \<Longrightarrow>
     length (toks (inFile st')) \<le> length (toks (inFile st))"
proof (induction to_nano header bt tid threshold st rule: block_loop.induct)
  case (1 to_nano header bt tid threshold st)
  show ?case
  proof (cases "\<not> eofbit (inFile st) \<and> read_number st < threshold")
    case True
    with "1.prems" obtain st1 where s: "read_block to_nano header bt tid st = Inr st1"
      and l: "block_loop to_nano header bt tid threshold st1 = Inr st'"
      by (auto simp: block_loop.simps [of to_nano header bt tid threshold st] split: sum.splits)
    from "1.IH" [OF True s l] read_block_stream [OF s] show ?thesis by simp
  next
    case False
    with "1.prems" show ?thesis
      by (auto simp: block_loop.simps [of to_nano header bt tid threshold st])
  qed
qed

lemma read_thread_stream:
  assumes "read_thread to_nano header bt st = Inr st'" and "\<not> eofbit (inFile st)"
  shows "length (toks (inFile st')) + (if eofbit (inFile st') then 0 else 1)
           < length (toks (inFile st)) + 1"
proof -
  obtain tid st1 where r1: "(if version header < EASY_V_130
                        then (let (t, s) = get_num st (0 :: 32 word) in (ucast t, s))
                        else get_num st (0 :: 64 word)) = (tid, st1)"
    by (cases "(if version header < EASY_V_130
                        then (let (t, s) = get_num st (0 :: 32 word) in (ucast t, s))
                        else get_num st (0 :: 64 word))")
  then have m1: "length (toks (inFile st1)) \<le> length (toks (inFile st))"
    and c1: "\<not> eofbit (inFile st1) \<longrightarrow> length (toks (inFile st1)) < length (toks (inFile st))"
    by (auto split: if_splits prod.splits dest!: get_num_stream)
  show ?thesis
  proof (cases "eofbit (inFile st1)")
    case True
    with assms r1 m1 show ?thesis by (simp add: read_thread_def)
  next
    case False
    with c1 have lt: "length (toks (inFile st1)) < length (toks (inFile st))" by simp
    from assms(1) r1 False have "length (toks (inFile st')) \<le> length (toks (inFile st1))"
      by (auto simp: read_thread_def Let_def split: prod.splits if_splits sum.splits
               dest!: get_num_stream get_chars_stream cswitch_loop_stream block_loop_stream)
    with lt show ?thesis by simp
  qed
qed

text \<open>\<^verbatim>\<open>while (!inFile.eof())\<close>\<close>

function read_threads ::
  "(timestamp_t \<Rightarrow> timestamp_t) \<Rightarrow> EasyFileHeader \<Rightarrow> timestamp_t \<Rightarrow> dstate \<Rightarrow> dstate result" where
  "read_threads to_nano header bt st =
     (if \<not> eofbit (inFile st)
      then (case read_thread to_nano header bt st of
              Inl err \<Rightarrow> Inl err
            | Inr st' \<Rightarrow> read_threads to_nano header bt st')
      else Inr st)"
  by pat_completeness auto
termination
  by (relation "measure (\<lambda>(to_nano, header, bt, st).
         length (toks (inFile st)) + (if eofbit (inFile st) then 0 else 1))")
     (auto dest!: read_thread_stream)

declare read_threads.simps [simp del]

text \<open>
  The last phase, for one thread: the frames are counted, the depth of the root is raised to
  the deepest frame and the durations are summed. With statistics the source computes the same
  three values inside one worker thread per root, and the statistics besides.
\<close>

fun count_frames :: "blocks_t \<Rightarrow> descriptors_list_t \<Rightarrow> block_index_t list \<Rightarrow> BlocksTreeRoot \<Rightarrow> error + BlocksTreeRoot" where
  "count_frames bs ds [] root = Inr root"
| "count_frames bs ds (c # cs) root =
     (case block_at bs c of
        Inl e \<Rightarrow> Inl e
      | Inr frame \<Rightarrow>
         (case descriptor_at ds (unat (m_id (node frame))) of
            Inl e \<Rightarrow> Inl e
          | Inr desc \<Rightarrow>
             (let root1 = (if d_type desc = Block then root\<lparr>frames_number := frames_number root + 1\<rparr> else root);
                  root2 = (if root_depth root1 < depth frame then root1\<lparr>root_depth := depth frame\<rparr> else root1);
                  root3 = root2\<lparr>profiled_time := profiled_time root2 + duration (node frame)\<rparr>
              in count_frames bs ds cs root3)))"

fun finish_roots ::
  "blocks_t \<Rightarrow> descriptors_list_t \<Rightarrow> nat \<Rightarrow> thread_blocks_tree_t \<Rightarrow> nat \<Rightarrow> progress_cell \<Rightarrow>
   error + (thread_blocks_tree_t \<times> progress_cell)" where
  "finish_roots bs ds n [] j p = Inr ([], p)"
| "finish_roots bs ds n ((tid, root) # rest) j p =
     (case count_frames bs ds (root_children root) (root\<lparr>thread_id := tid\<rparr>) of
        Inl e \<Rightarrow> Inl e
      | Inr root1 \<Rightarrow>
         (let root2 = root1\<lparr>root_depth := root_depth root1 + 1\<rparr>;
              p' = store p (90 + (10 * (int j + 1)) div int n)
          in case finish_roots bs ds n rest (j + 1) p' of
               Inl e \<Rightarrow> Inl e
             | Inr (rest', p'') \<Rightarrow> Inr ((tid, root2) # rest', p'')))"

text \<open>
  \<^verbatim>\<open>fillTreesFromStream\<close>. \<open>PROFILER_SIGNATURE\<close> is the constant of that name, defined
  outside the sources; \<open>to_nano\<close> maps a frequency to the conversion of a timestamp. The result
  is the header read and the final state, or the error with the state at the return; the value
  the source returns is \<open>return_value\<close> of it.
\<close>

definition fillTreesFromStream ::
  "32 word \<Rightarrow> (64 word \<Rightarrow> timestamp_t \<Rightarrow> timestamp_t) \<Rightarrow> dstate \<Rightarrow> (EasyFileHeader \<times> dstate) result" where
  "fillTreesFromStream PROFILER_SIGNATURE to_nano st =
     (case checkpoint st 0 of
        Inl err \<Rightarrow> Inl err
      | Inr st1 \<Rightarrow>
         (let (sig, st2) = get_num st1 (0 :: 32 word)
          in if sig \<noteq> PROFILER_SIGNATURE then Inl (WrongSignature, st2)
             else
               let (ver, st3) = get_num st2 (0 :: 32 word)
               in if \<not> isCompatibleVersion ver then Inl (IncompatibleVersion, st3)
                  else
                    case (if ver < EASY_V_200
                          then readHeader_v1 (new_EasyFileHeader\<lparr>signature := sig, version := ver\<rparr>) st3
                          else readHeader_v2 (new_EasyFileHeader\<lparr>signature := sig, version := ver\<rparr>) st3) of
                      Inl err \<Rightarrow> Inl err
                    | Inr (header, st4) \<Rightarrow>
                       (let bt = (if cpu_frequency header \<noteq> 0
                                  then to_nano (cpu_frequency header) (begin_time header)
                                  else begin_time header)
                        in case read_descriptors (descriptors_memory_size header)
                                  (total_descriptors_number header) (st4\<lparr>pool_i := 0\<rparr>) of
                             Inl err \<Rightarrow> Inl err
                           | Inr st5 \<Rightarrow>
                              (case read_threads (to_nano (cpu_frequency header)) header bt
                                      (st5\<lparr>pool_i := 0, read_number := 0, blocks_counter := 0\<rparr>) of
                                 Inl err \<Rightarrow> Inl err
                               | Inr st6 \<Rightarrow>
                                  (case checkpoint st6 90 of
                                     Inl err \<Rightarrow> Inl err
                                   | Inr st7 \<Rightarrow>
                                      (case finish_roots (blocks st7) (descriptors st7)
                                              (length (threaded_trees st7)) (threaded_trees st7) 0
                                              (progress st7) of
                                         Inl e \<Rightarrow> Inl (e, st7)
                                       | Inr (trees, p) \<Rightarrow>
                                          Inr (header, st7\<lparr>threaded_trees := trees,
                                                           progress := store p 100\<rparr>)))))))"

definition return_value :: "(EasyFileHeader \<times> dstate) result \<Rightarrow> nat" where
  "return_value r = (case r of Inl err \<Rightarrow> 0 | Inr (header, st) \<Rightarrow> blocks_counter st)"

text \<open>The state at a call: a stream to read, a progress cell, empty output parameters.\<close>

definition start :: "token list \<Rightarrow> progress_cell \<Rightarrow> dstate" where
  "start ts p =
     \<lparr>inFile = \<lparr>toks = ts, eofbit = False\<rparr>, progress = p, history = [], descriptors = [],
      blocks = [], threaded_trees = [], identification_table = [], name_buf = [], pool_i = 0,
      read_number = 0, blocks_counter = 0\<rparr>"

subsection \<open>Sample traces\<close>

text \<open>Projections of a result: the blocks, the children of each thread's root, the model.\<close>

definition decoded_blocks :: "(EasyFileHeader \<times> dstate) result \<Rightarrow> blocks_t" where
  "decoded_blocks r = (case r of Inl err \<Rightarrow> [] | Inr (header, st) \<Rightarrow> blocks st)"

definition decoded_roots :: "(EasyFileHeader \<times> dstate) result \<Rightarrow> (thread_id_t \<times> block_index_t list) list" where
  "decoded_roots r =
     (case r of Inl err \<Rightarrow> [] | Inr (header, st) \<Rightarrow> map (\<lambda>(tid, root). (tid, root_children root)) (threaded_trees st))"

definition decoded_error :: "(EasyFileHeader \<times> dstate) result \<Rightarrow> error option" where
  "decoded_error r = (case r of Inl (e, st) \<Rightarrow> Some e | Inr x \<Rightarrow> None)"

text \<open>A block without a runtime name, of descriptor 0, from \<open>b\<close> to \<open>e\<close>.\<close>

definition blk :: "nat \<Rightarrow> nat \<Rightarrow> SerializedBlock" where
  "blk b e = \<lparr>m_begin = of_nat b, m_end = of_nat e, m_id = 0, m_name = [], m_size = 0\<rparr>"

definition sample_descriptor :: SerializedBlockDescriptor where
  "sample_descriptor = \<lparr>d_id = 0, d_line = 1, d_type = Block, d_name = ''f'', d_file = ''a.cpp''\<rparr>"

text \<open>
  The header of a trace in the layout of version 2.0.0 with signature \<open>s\<close>, no frequency, the
  times \<open>b\<close> and \<open>e\<close>, \<open>n\<close> records of 21 bytes and one descriptor, followed by the descriptor.
\<close>

definition sample_header :: "nat \<Rightarrow> nat \<Rightarrow> nat \<Rightarrow> nat \<Rightarrow> token list" where
  "sample_header s b e n =
     [Num s, Num 33554432, Num 1, Num 0, Num b, Num e, Num (21 * n), Num 30, Num n, Num 1,
      Num 30, Desc sample_descriptor]"

text \<open>
  One thread, numbered 1 and without a name or context switches, whose blocks arrive in the
  order of their completion: B from 10 to 40, C from 50 to 90, then A from 0 to 100.
\<close>

definition nesting_trace :: "nat \<Rightarrow> token list" where
  "nesting_trace s =
     sample_header s 0 100 3 @
     [Num 1, Num 0, Num 0, Num 3,
      Num 21, Data (blk 10 40), Num 21, Data (blk 50 90), Num 21, Data (blk 0 100)]"

text \<open>A progress cell that nobody else writes.\<close>

definition quiet :: progress_cell where
  "quiet = \<lparr>cell = 0, pending = []\<rparr>"

text \<open>The errors of the header's four count and size fields, and the errors of the later phases.\<close>

definition zero_field :: "error \<Rightarrow> bool" where
  "zero_field e \<longleftrightarrow> e \<in> {BlocksNumberZero, MemorySizeZero, DescriptorsNumberZero, DescriptorsMemorySizeZero}"

definition reading_error :: "error \<Rightarrow> bool" where
  "reading_error e \<longleftrightarrow>
     e \<in> {Interrupted, BadCSwitchSize, CSwitchesDataCorrupted, BadBlockSize, BlocksDataCorrupted,
          BadBlockId, DescriptionIsNull, StackDepthExceeded, InvalidAccess}"

text \<open>A trace whose header, in the layout of version 2.0.0, announces no blocks.\<close>

definition no_blocks_trace :: "token list" where
  "no_blocks_trace = [Num 7, Num 33554432, Num 1, Num 0, Num 0, Num 100, Num 63, Num 30, Num 0, Num 1,
      Num 30, Desc sample_descriptor]"

text \<open>
  The next record of a thread, as the loops over context switches and blocks meet it: a length
  \<open>sz\<close> that is not zero and fits the pool, followed by the payload \<open>d\<close>; \<open>converted\<close> is
  the payload after the conversion of its timestamps, \<open>record_read\<close> the state once length and
  payload are read.
\<close>

definition converted :: "(timestamp_t \<Rightarrow> timestamp_t) \<Rightarrow> EasyFileHeader \<Rightarrow> SerializedBlock \<Rightarrow> SerializedBlock" where
  "converted to_nano header d =
     (if cpu_frequency header \<noteq> 0
      then d\<lparr>m_begin := to_nano (m_begin d), m_end := to_nano (m_end d)\<rparr> else d)"

definition record_read :: "dstate \<Rightarrow> nat \<Rightarrow> token list \<Rightarrow> dstate" where
  "record_read st sz rest =
     st\<lparr>read_number := read_number st + 1,
        inFile := (inFile st)\<lparr>toks := rest\<rparr>,
        history := history st @ [StreamIO, StreamIO],
        pool_i := pool_i st + ucast (of_nat sz :: 16 word)\<rparr>"

definition next_record :: "dstate \<Rightarrow> EasyFileHeader \<Rightarrow> nat \<Rightarrow> SerializedBlock \<Rightarrow> token list \<Rightarrow> bool" where
  "next_record st header sz d rest \<longleftrightarrow>
     toks (inFile st) = Num sz # Data d # rest \<and> \<not> eofbit (inFile st) \<and>
     (of_nat sz :: 16 word) \<noteq> 0 \<and>
     \<not> memory_size header < pool_i st + ucast (of_nat sz :: 16 word)"


text \<open>A header and a state in the middle of the decoding of a trace with one descriptor.\<close>

definition sample_file_header :: EasyFileHeader where
  "sample_file_header =
     \<lparr>signature = 7, version = 33554432, pid = 1, cpu_frequency = 0, begin_time = 10,
      end_time = 100, memory_size = 63, descriptors_memory_size = 30, total_blocks_number = 3,
      total_descriptors_number = 1\<rparr>"

definition reading :: "token list \<Rightarrow> dstate" where
  "reading ts = (start ts quiet)\<lparr>descriptors := [Some sample_descriptor]\<rparr>"

text \<open>
  The words of the claim about \<^verbatim>\<open>serializeDescriptors\<close>: an entry matches when it is not
  null and its stored id is its index; the prefix written is the longest one of matching
  entries below the cap \<open>n\<close>; a descriptor is written as its length and its record.
\<close>

definition id_matches :: "descriptors_list_t \<Rightarrow> nat \<Rightarrow> bool" where
  "id_matches ds i \<longleftrightarrow> (case ds ! i of None \<Rightarrow> False | Some d \<Rightarrow> unat (d_id d) = i)"

definition descriptor_fields :: "layout \<Rightarrow> SerializedBlockDescriptor \<Rightarrow> token list" where
  "descriptor_fields L desc =
     [Num (unat ((of_nat (sizeof_SerializedBlockDescriptor L + length (d_name desc)
                          + length (d_file desc) + 2)) :: 16 word)),
      Desc desc]"

definition matching_prefix :: "descriptors_list_t \<Rightarrow> nat \<Rightarrow> nat list" where
  "matching_prefix ds n = takeWhile (id_matches ds) [0 ..< n]"


definition sample_layout :: layout where
  "sample_layout =
     \<lparr>sizeof_SerializedBlock = 20, sizeof_ArbitraryValue = 32, sizeof_SerializedCSwitch = 24,
      sizeof_SerializedBlockDescriptor = 18\<rparr>"

text \<open>
  A table whose entry 2 holds the id 5 while entry 3 holds its own index, and a table with a
  null placeholder at entry 1.
\<close>

definition sample_table :: descriptors_list_t where
  "sample_table =
     [Some sample_descriptor, Some (sample_descriptor\<lparr>d_id := 1\<rparr>),
      Some (sample_descriptor\<lparr>d_id := 5\<rparr>), Some (sample_descriptor\<lparr>d_id := 3\<rparr>)]"

definition holed_table :: descriptors_list_t where
  "holed_table = [Some sample_descriptor, None, Some (sample_descriptor\<lparr>d_id := 2\<rparr>)]"

text \<open>
  A trace that begins at 10 and whose only block, from 0 to 5, names the descriptor 5 of a
  table with one entry.
\<close>

definition early_bad_id_trace :: "token list" where
  "early_bad_id_trace =
     sample_header 7 10 100 1 @
     [Num 1, Num 0, Num 0, Num 1, Num 21, Data ((blk 0 5)\<lparr>m_id := 5\<rparr>)]"





definition w0 :: wstate where
  "w0 = \<lparr>str = [], wprogress = quiet, wevents = []\<rparr>"


definition write_result :: "((error \<times> wstate) + (nat \<times> wstate)) option \<Rightarrow> (error + nat) option" where
  "write_result r = (case r of Some (Inr (n, st)) \<Rightarrow> Some (Inr n) | Some (Inl (e, st)) \<Rightarrow> Some (Inl e) | None \<Rightarrow> None)"




text \<open>The model that the decoder builds from \<open>nesting_trace\<close>.\<close>

definition nesting_blocks :: blocks_t where
  "nesting_blocks =
     [\<lparr>node = blk 10 40, children = [], depth = 0\<rparr>,
      \<lparr>node = blk 50 90, children = [], depth = 0\<rparr>,
      \<lparr>node = blk 0 100, children = [0, 1], depth = 1\<rparr>]"

definition nesting_root :: BlocksTreeRoot where
  "nesting_root =
     \<lparr>root_children = [2], sync = [], events = [], thread_name = [], thread_id = 1,
      profiled_time = 100, wait_time = 0, frames_number = 1, blocks_number = 3, root_depth = 2\<rparr>"

section \<open>Properties\<close>

subsection \<open>Invariants of the decoder's loops\<close>

text \<open>
  One rule per loop: a property \<open>P\<close> of the state that every iteration keeps holds when the
  loop ends, and a property \<open>Q\<close> of the error and the state that every failing iteration
  establishes holds when the loop fails.
\<close>

lemma read_descriptors_rule:
  assumes "P st"
    and "\<And>s s'. P s \<Longrightarrow> \<not> eofbit (inFile s) \<and> length (descriptors s) < unat total_number \<Longrightarrow> read_descriptor dms s = Inr s' \<Longrightarrow> P s'"
    and "\<And>s e s'. P s \<Longrightarrow> \<not> eofbit (inFile s) \<and> length (descriptors s) < unat total_number \<Longrightarrow> read_descriptor dms s = Inl (e, s') \<Longrightarrow> Q e s'"
  shows "case read_descriptors dms total_number st of Inr s' \<Rightarrow> P s' | Inl (e, s') \<Rightarrow> Q e s'"
  using assms
proof (induction dms total_number st rule: read_descriptors.induct)
  case (1 dms total_number st)
  note P = "1.prems"(1) and step = "1.prems"(2) and err = "1.prems"(3)
  show ?case
  proof (cases "\<not> eofbit (inFile st) \<and> length (descriptors st) < unat total_number")
    case False
    then have "read_descriptors dms total_number st = Inr st"
      by (subst read_descriptors.simps) auto
    with P show ?thesis by simp
  next
    case True
    show ?thesis
    proof (cases "read_descriptor dms st")
      case (Inl a)
      obtain e s' where a: "a = (e, s')" by (cases a)
      from Inl a have r: "read_descriptor dms st = Inl (e, s')" by simp
      have "Q e s'" by (rule err [OF P True r])
      moreover from True r have "read_descriptors dms total_number st = Inl (e, s')"
        by (subst read_descriptors.simps) simp
      ultimately show ?thesis by simp
    next
      case (Inr s')
      have "P s'" by (rule step [OF P True Inr])
      then have "case read_descriptors dms total_number s' of Inr s' \<Rightarrow> P s' | Inl (e, s') \<Rightarrow> Q e s'"
        by (rule "1.IH" [OF True Inr _ step err])
      moreover from True Inr have "read_descriptors dms total_number st = read_descriptors dms total_number s'"
        by (subst read_descriptors.simps) simp
      ultimately show ?thesis by simp
    qed
  qed
qed

lemma cswitch_loop_rule:
  assumes "P st"
    and "\<And>s s'. P s \<Longrightarrow> \<not> eofbit (inFile s) \<and> read_number s < threshold \<Longrightarrow> read_cswitch to_nano header bt tid s = Inr s' \<Longrightarrow> P s'"
    and "\<And>s e s'. P s \<Longrightarrow> \<not> eofbit (inFile s) \<and> read_number s < threshold \<Longrightarrow> read_cswitch to_nano header bt tid s = Inl (e, s') \<Longrightarrow> Q e s'"
  shows "case cswitch_loop to_nano header bt tid threshold st of Inr s' \<Rightarrow> P s' | Inl (e, s') \<Rightarrow> Q e s'"
  using assms
proof (induction to_nano header bt tid threshold st rule: cswitch_loop.induct)
  case (1 to_nano header bt tid threshold st)
  note P = "1.prems"(1) and step = "1.prems"(2) and err = "1.prems"(3)
  show ?case
  proof (cases "\<not> eofbit (inFile st) \<and> read_number st < threshold")
    case False
    then have "cswitch_loop to_nano header bt tid threshold st = Inr st"
      by (subst cswitch_loop.simps) auto
    with P show ?thesis by simp
  next
    case True
    show ?thesis
    proof (cases "read_cswitch to_nano header bt tid st")
      case (Inl a)
      obtain e s' where a: "a = (e, s')" by (cases a)
      from Inl a have r: "read_cswitch to_nano header bt tid st = Inl (e, s')" by simp
      have "Q e s'" by (rule err [OF P True r])
      moreover from True r have "cswitch_loop to_nano header bt tid threshold st = Inl (e, s')"
        by (subst cswitch_loop.simps) simp
      ultimately show ?thesis by simp
    next
      case (Inr s')
      have "P s'" by (rule step [OF P True Inr])
      then have "case cswitch_loop to_nano header bt tid threshold s' of Inr s' \<Rightarrow> P s' | Inl (e, s') \<Rightarrow> Q e s'"
        by (rule "1.IH" [OF True Inr _ step err])
      moreover from True Inr have "cswitch_loop to_nano header bt tid threshold st = cswitch_loop to_nano header bt tid threshold s'"
        by (subst cswitch_loop.simps) simp
      ultimately show ?thesis by simp
    qed
  qed
qed

lemma block_loop_rule:
  assumes "P st"
    and "\<And>s s'. P s \<Longrightarrow> \<not> eofbit (inFile s) \<and> read_number s < threshold \<Longrightarrow> read_block to_nano header bt tid s = Inr s' \<Longrightarrow> P s'"
    and "\<And>s e s'. P s \<Longrightarrow> \<not> eofbit (inFile s) \<and> read_number s < threshold \<Longrightarrow> read_block to_nano header bt tid s = Inl (e, s') \<Longrightarrow> Q e s'"
  shows "case block_loop to_nano header bt tid threshold st of Inr s' \<Rightarrow> P s' | Inl (e, s') \<Rightarrow> Q e s'"
  using assms
proof (induction to_nano header bt tid threshold st rule: block_loop.induct)
  case (1 to_nano header bt tid threshold st)
  note P = "1.prems"(1) and step = "1.prems"(2) and err = "1.prems"(3)
  show ?case
  proof (cases "\<not> eofbit (inFile st) \<and> read_number st < threshold")
    case False
    then have "block_loop to_nano header bt tid threshold st = Inr st"
      by (subst block_loop.simps) auto
    with P show ?thesis by simp
  next
    case True
    show ?thesis
    proof (cases "read_block to_nano header bt tid st")
      case (Inl a)
      obtain e s' where a: "a = (e, s')" by (cases a)
      from Inl a have r: "read_block to_nano header bt tid st = Inl (e, s')" by simp
      have "Q e s'" by (rule err [OF P True r])
      moreover from True r have "block_loop to_nano header bt tid threshold st = Inl (e, s')"
        by (subst block_loop.simps) simp
      ultimately show ?thesis by simp
    next
      case (Inr s')
      have "P s'" by (rule step [OF P True Inr])
      then have "case block_loop to_nano header bt tid threshold s' of Inr s' \<Rightarrow> P s' | Inl (e, s') \<Rightarrow> Q e s'"
        by (rule "1.IH" [OF True Inr _ step err])
      moreover from True Inr have "block_loop to_nano header bt tid threshold st = block_loop to_nano header bt tid threshold s'"
        by (subst block_loop.simps) simp
      ultimately show ?thesis by simp
    qed
  qed
qed

lemma read_threads_rule:
  assumes "P st"
    and "\<And>s s'. P s \<Longrightarrow> \<not> eofbit (inFile s) \<Longrightarrow> read_thread to_nano header bt s = Inr s' \<Longrightarrow> P s'"
    and "\<And>s e s'. P s \<Longrightarrow> \<not> eofbit (inFile s) \<Longrightarrow> read_thread to_nano header bt s = Inl (e, s') \<Longrightarrow> Q e s'"
  shows "case read_threads to_nano header bt st of Inr s' \<Rightarrow> P s' | Inl (e, s') \<Rightarrow> Q e s'"
  using assms
proof (induction to_nano header bt st rule: read_threads.induct)
  case (1 to_nano header bt st)
  note P = "1.prems"(1) and step = "1.prems"(2) and err = "1.prems"(3)
  show ?case
  proof (cases "\<not> eofbit (inFile st)")
    case False
    then have "read_threads to_nano header bt st = Inr st"
      by (subst read_threads.simps) auto
    with P show ?thesis by simp
  next
    case True
    show ?thesis
    proof (cases "read_thread to_nano header bt st")
      case (Inl a)
      obtain e s' where a: "a = (e, s')" by (cases a)
      from Inl a have r: "read_thread to_nano header bt st = Inl (e, s')" by simp
      have "Q e s'" by (rule err [OF P True r])
      moreover from True r have "read_threads to_nano header bt st = Inl (e, s')"
        by (subst read_threads.simps) simp
      ultimately show ?thesis by simp
    next
      case (Inr s')
      have "P s'" by (rule step [OF P True Inr])
      then have "case read_threads to_nano header bt s' of Inr s' \<Rightarrow> P s' | Inl (e, s') \<Rightarrow> Q e s'"
        by (rule "1.IH" [OF True Inr _ step err])
      moreover from True Inr have "read_threads to_nano header bt st = read_threads to_nano header bt s'"
        by (subst read_threads.simps) simp
      ultimately show ?thesis by simp
    qed
  qed
qed

subsection \<open>The header and the errors of each phase\<close>

lemma readHeader_v1_valid:
  "readHeader_v1 h st = Inr (h', st') \<Longrightarrow>
     total_blocks_number h' \<noteq> 0 \<and> memory_size h' \<noteq> 0 \<and>
     total_descriptors_number h' \<noteq> 0 \<and> descriptors_memory_size h' \<noteq> 0 \<and>
     signature h' = signature h \<and> version h' = version h"
  by (auto simp: readHeader_v1_def Let_def split: prod.splits if_splits)

lemma readHeader_v2_valid:
  "readHeader_v2 h st = Inr (h', st') \<Longrightarrow>
     total_blocks_number h' \<noteq> 0 \<and> memory_size h' \<noteq> 0 \<and>
     total_descriptors_number h' \<noteq> 0 \<and> descriptors_memory_size h' \<noteq> 0 \<and>
     signature h' = signature h \<and> version h' = version h"
  by (auto simp: readHeader_v2_def Let_def split: prod.splits if_splits)

lemma get_num_untouched:
  "get_num st d = (v, st') \<Longrightarrow> descriptors st' = descriptors st \<and> blocks st' = blocks st \<and>
     threaded_trees st' = threaded_trees st \<and> blocks_counter st' = blocks_counter st"
  by (auto simp: get_num_def Let_def split: prod.splits)

lemma readHeader_v1_failure:
  "readHeader_v1 h st = Inl (e, st') \<Longrightarrow>
     zero_field e \<and> descriptors st' = descriptors st \<and> blocks st' = blocks st"
  by (auto simp: readHeader_v1_def Let_def zero_field_def split: prod.splits if_splits dest!: get_num_untouched)

lemma readHeader_v2_failure:
  "readHeader_v2 h st = Inl (e, st') \<Longrightarrow>
     zero_field e \<and> descriptors st' = descriptors st \<and> blocks st' = blocks st"
  by (auto simp: readHeader_v2_def Let_def zero_field_def split: prod.splits if_splits dest!: get_num_untouched)

lemma checkpoint_untouched:
  "checkpoint st v = Inr st' \<Longrightarrow> descriptors st' = descriptors st \<and> blocks st' = blocks st \<and>
     threaded_trees st' = threaded_trees st \<and> blocks_counter st' = blocks_counter st \<and> inFile st' = inFile st"
  by (auto simp: checkpoint_def Let_def split: prod.splits if_splits)

lemma checkpoint_passes:
  "0 \<le> observed (progress st) \<Longrightarrow>
   checkpoint st v = Inr (st\<lparr>progress := \<lparr>cell = v, pending = tl (pending (progress st))\<rparr>,
                            history := history st @ [Exchange (observed (progress st))]\<rparr>)"
  by (simp add: checkpoint_def update_progress_def exchange_def Let_def)

lemma decode_success_header:
  assumes "fillTreesFromStream sig to_nano st = Inr (header, st')"
  shows "signature header = sig \<and> MIN_COMPATIBLE_VERSION \<le> version header \<and>
     total_blocks_number header \<noteq> 0 \<and> memory_size header \<noteq> 0 \<and>
     total_descriptors_number header \<noteq> 0 \<and> descriptors_memory_size header \<noteq> 0"
  using assms
  by (auto simp: fillTreesFromStream_def Let_def isCompatibleVersion_def new_EasyFileHeader_def
           split: sum.splits prod.splits if_splits
           dest!: readHeader_v1_valid readHeader_v2_valid)

lemma decode_wrong_signature:
  assumes "toks (inFile st) = Num s # rest" "\<not> eofbit (inFile st)" "0 \<le> observed (progress st)"
    "of_nat s \<noteq> sig"
  shows "\<exists>st'. fillTreesFromStream sig to_nano st = Inl (WrongSignature, st') \<and>
     toks (inFile st') = rest \<and> descriptors st' = descriptors st \<and> blocks st' = blocks st"
  using assms
  by (simp add: fillTreesFromStream_def checkpoint_passes get_num_def read_num_def Let_def)

lemma decode_incompatible_version:
  assumes "toks (inFile st) = Num s # Num v # rest" "\<not> eofbit (inFile st)" "0 \<le> observed (progress st)"
    "of_nat s = sig" "(of_nat v :: 32 word) < MIN_COMPATIBLE_VERSION"
  shows "\<exists>st'. fillTreesFromStream sig to_nano st = Inl (IncompatibleVersion, st') \<and>
     toks (inFile st') = rest \<and> descriptors st' = descriptors st \<and> blocks st' = blocks st"
  using assms
  by (auto simp add: fillTreesFromStream_def checkpoint_passes get_num_def read_num_def Let_def
        isCompatibleVersion_def)

lemma checkpoint_error: "checkpoint st v = Inl (e, st') \<Longrightarrow> e = Interrupted"
  by (auto simp: checkpoint_def Let_def split: prod.splits if_splits)

lemma read_descriptor_error: "read_descriptor dms st = Inl (e, st') \<Longrightarrow> reading_error e"
  by (auto simp: read_descriptor_def reading_error_def Let_def split: prod.splits if_splits
           dest!: checkpoint_error)

lemma read_cswitch_error: "read_cswitch to_nano header bt tid st = Inl (e, st') \<Longrightarrow> reading_error e"
  by (auto simp: read_cswitch_def reading_error_def Let_def split: prod.splits if_splits
           dest!: checkpoint_error)

lemma count_enclosed_error: "count_enclosed bs mt0 cs = Inl e \<Longrightarrow> e = InvalidAccess"
  by (induction cs arbitrary: e) (auto simp: block_at_def split: if_splits sum.splits)

lemma max_depth_error: "max_depth bs cs dp = Inl e \<Longrightarrow> e = InvalidAccess"
  by (induction cs arbitrary: dp) (auto simp: block_at_def split: if_splits sum.splits)

lemma attach_block_error: "attach_block tid d desc st = Inl (e, st') \<Longrightarrow> reading_error e"
  by (auto simp: attach_block_def reading_error_def Let_def at_def block_at_def
           split: prod.splits if_splits sum.splits option.splits
           dest!: count_enclosed_error max_depth_error)

lemma read_block_error: "read_block to_nano header bt tid st = Inl (e, st') \<Longrightarrow> reading_error e"
  by (auto simp: read_block_def Let_def at_def split: prod.splits if_splits sum.splits option.splits
           dest!: checkpoint_error attach_block_error)
     (auto simp: reading_error_def)

lemma read_descriptors_error:
  "read_descriptors dms total_number st = Inl (e, st') \<Longrightarrow> reading_error e"
  using read_descriptors_rule [where P = "\<lambda>s. True" and Q = "\<lambda>e s. reading_error e" and st = st and dms = dms and total_number = total_number]
  by (auto dest: read_descriptor_error)

lemma cswitch_loop_error:
  "cswitch_loop to_nano header bt tid threshold st = Inl (e, st') \<Longrightarrow> reading_error e"
  using cswitch_loop_rule [where P = "\<lambda>s. True" and Q = "\<lambda>e s. reading_error e" and st = st and to_nano = to_nano and header = header and bt = bt and tid = tid and threshold = threshold]
  by (auto dest: read_cswitch_error)

lemma block_loop_error:
  "block_loop to_nano header bt tid threshold st = Inl (e, st') \<Longrightarrow> reading_error e"
  using block_loop_rule [where P = "\<lambda>s. True" and Q = "\<lambda>e s. reading_error e" and st = st and to_nano = to_nano and header = header and bt = bt and tid = tid and threshold = threshold]
  by (auto dest: read_block_error)

lemma read_thread_error: "read_thread to_nano header bt st = Inl (e, st') \<Longrightarrow> reading_error e"
  by (auto simp: read_thread_def Let_def split: prod.splits if_splits sum.splits
           dest!: cswitch_loop_error block_loop_error)

lemma read_threads_error:
  "read_threads to_nano header bt st = Inl (e, st') \<Longrightarrow> reading_error e"
  using read_threads_rule [where P = "\<lambda>s. True" and Q = "\<lambda>e s. reading_error e" and st = st and to_nano = to_nano and header = header and bt = bt]
  by (auto dest: read_thread_error)

lemma count_frames_error: "count_frames bs ds cs root = Inl e \<Longrightarrow> e = InvalidAccess"
  by (induction cs arbitrary: root)
     (auto simp: block_at_def descriptor_at_def Let_def split: if_splits sum.splits option.splits)

lemma finish_roots_error: "finish_roots bs ds n trees j p = Inl e \<Longrightarrow> e = InvalidAccess"
  by (induction trees arbitrary: j p)
     (auto simp: Let_def split: if_splits sum.splits prod.splits dest!: count_frames_error)

lemma zero_field_not_reading: "reading_error e \<Longrightarrow> \<not> zero_field e"
  by (auto simp: reading_error_def zero_field_def)

lemma decode_zero_field:
  assumes "fillTreesFromStream sig to_nano st = Inl (e, st')" and "zero_field e"
  shows "descriptors st' = descriptors st \<and> blocks st' = blocks st"
proof -
  have nz: "\<not> zero_field Interrupted" "\<not> zero_field WrongSignature" "\<not> zero_field IncompatibleVersion"
    "\<not> zero_field InvalidAccess"
    by (simp_all add: zero_field_def)
  from assms nz show ?thesis
    by (auto simp: fillTreesFromStream_def Let_def
           split: sum.splits prod.splits if_splits
           dest!: checkpoint_error checkpoint_untouched get_num_untouched
                  readHeader_v1_failure readHeader_v2_failure
                  read_descriptors_error read_threads_error finish_roots_error zero_field_not_reading)
qed


lemma readHeader_v2_fields:
  assumes "toks (inFile hs) = Num a # Num b # Num c # Num d # Num ms # Num dms # Num tbn # Num tdn # rest"
    and "\<not> eofbit (inFile hs)"
  shows "(\<exists>x. readHeader_v2 h hs = Inr x) \<longleftrightarrow>
     (of_nat ms \<noteq> (0 :: 64 word) \<and> of_nat dms \<noteq> (0 :: 64 word) \<and>
      of_nat tbn \<noteq> (0 :: 32 word) \<and> of_nat tdn \<noteq> (0 :: 32 word))"
  using assms by (simp add: readHeader_v2_def get_num_def read_num_def Let_def)

lemma readHeader_v1_fields:
  assumes "toks (inFile hs) = (if EASY_V_100 < version h then [Num a] else []) @
       Num b # Num c # Num d # Num tbn # Num ms # Num tdn # Num dms # rest"
    and "\<not> eofbit (inFile hs)"
  shows "(\<exists>x. readHeader_v1 h hs = Inr x) \<longleftrightarrow>
     (of_nat ms \<noteq> (0 :: 64 word) \<and> of_nat dms \<noteq> (0 :: 64 word) \<and>
      of_nat tbn \<noteq> (0 :: 32 word) \<and> of_nat tdn \<noteq> (0 :: 32 word))"
  using assms by (auto simp add: readHeader_v1_def get_num_def read_num_def Let_def)


subsection \<open>Reading one record\<close>

lemma read_block_accepts:
  assumes "next_record st header sz d rest"
    and "\<not> total_descriptors_number header \<le> m_id d"
    and "unat (m_id d) < length (descriptors st)"
    and "descriptors st ! unat (m_id d) = Some desc"
  shows "read_block to_nano header bt tid st =
     (let d1 = converted to_nano header d; st3 = record_read st sz rest
      in case (if bt \<le> m_end d1
               then attach_block tid (if m_begin d1 < bt then d1\<lparr>m_begin := bt\<rparr> else d1) desc st3
               else Inr st3) of
           Inl err \<Rightarrow> Inl err
         | Inr st4 \<Rightarrow> checkpoint st4 (20 + to_int (70 * pool_i st4 div memory_size header)))"
  using assms
  by (simp add: read_block_def next_record_def get_num_def read_num_def get_data_def read_data_def
        Let_def at_def converted_def record_read_def)

lemma read_cswitch_accepts:
  assumes "next_record st header sz d rest"
  shows "read_cswitch to_nano header bt tid st =
     (let d1 = converted to_nano header d; st3 = record_read st sz rest;
          st4 = (if bt < m_end d1
                 then let d2 = (if m_begin d1 < bt then d1\<lparr>m_begin := bt\<rparr> else d1);
                          root = root_of (threaded_trees st3) tid
                      in st3\<lparr>blocks := blocks st3 @ [new_BlocksTree d2],
                             blocks_counter := blocks_counter st3 + 1,
                             threaded_trees := set_root tid
                               (root\<lparr>wait_time := wait_time root + duration d2,
                                     sync := sync root @ [blocks_counter st3]\<rparr>) (threaded_trees st3)\<rparr>
                 else st3)
      in checkpoint st4 (20 + to_int (70 * pool_i st4 div memory_size header)))"
  using assms
  by (simp add: read_cswitch_def next_record_def get_num_def read_num_def get_data_def read_data_def
        Let_def converted_def record_read_def)

lemma root_of_set_root [simp]: "root_of (set_root tid r trees) tid = r"
  by (induction trees) (auto simp: root_of_def)

lemma length_set_back [simp]: "length (set_back bs t) = length bs"
  by (simp add: set_back_def)

lemma attach_block_counts:
  "attach_block tid d desc st = Inr st' \<Longrightarrow>
     blocks_counter st' = blocks_counter st + 1 \<and> length (blocks st') = length (blocks st) + 1 \<and>
     root_children (root_of (threaded_trees st') tid) \<noteq> [] \<and>
     last (root_children (root_of (threaded_trees st') tid)) = blocks_counter st \<and>
     progress st' = progress st \<and> inFile st' = inFile st"
  by (auto simp: attach_block_def Let_def split: prod.splits if_splits sum.splits option.splits)

lemma read_block_skips:
  assumes "next_record st header sz d rest"
    and "\<not> total_descriptors_number header \<le> m_id d"
    and "unat (m_id d) < length (descriptors st)"
    and "descriptors st ! unat (m_id d) = Some desc"
    and "0 \<le> observed (progress st)"
    and "m_end (converted to_nano header d) < bt"
  shows "\<exists>st'. read_block to_nano header bt tid st = Inr st' \<and> blocks st' = blocks st \<and>
     threaded_trees st' = threaded_trees st \<and> blocks_counter st' = blocks_counter st \<and>
     toks (inFile st') = rest"
proof -
  from assms(6) have n: "\<not> bt \<le> m_end (converted to_nano header d)" by simp
  have o: "0 \<le> observed (progress (record_read st sz rest))"
    using assms(5) by (simp add: record_read_def)
  show ?thesis
    unfolding read_block_accepts [OF assms(1-4)] Let_def
    by (simp add: n checkpoint_passes [OF o]) (simp add: record_read_def)
qed

lemma read_block_keeps:
  assumes "next_record st header sz d rest"
    and "\<not> total_descriptors_number header \<le> m_id d"
    and "unat (m_id d) < length (descriptors st)"
    and "descriptors st ! unat (m_id d) = Some desc"
    and "bt \<le> m_end (converted to_nano header d)"
    and "read_block to_nano header bt tid st = Inr st'"
  shows "blocks_counter st' = blocks_counter st + 1 \<and>
     last (root_children (root_of (threaded_trees st') tid)) = blocks_counter st"
proof -
  let ?d1 = "converted to_nano header d"
  let ?d2 = "if m_begin ?d1 < bt then ?d1\<lparr>m_begin := bt\<rparr> else ?d1"
  from assms(6) obtain st4 where a: "attach_block tid ?d2 desc (record_read st sz rest) = Inr st4"
    and c: "checkpoint st4 (20 + to_int (70 * pool_i st4 div memory_size header)) = Inr st'"
    unfolding read_block_accepts [OF assms(1-4)] Let_def
    by (auto simp: assms(5) split: sum.splits)
  from attach_block_counts [OF a] checkpoint_untouched [OF c] show ?thesis
    by (simp add: record_read_def)
qed

lemma read_cswitch_skips:
  assumes "next_record st header sz d rest"
    and "0 \<le> observed (progress st)"
    and "m_end (converted to_nano header d) \<le> bt"
  shows "\<exists>st'. read_cswitch to_nano header bt tid st = Inr st' \<and> blocks st' = blocks st \<and>
     threaded_trees st' = threaded_trees st \<and> blocks_counter st' = blocks_counter st \<and>
     toks (inFile st') = rest"
proof -
  from assms(3) have n: "\<not> bt < m_end (converted to_nano header d)" by simp
  have o: "0 \<le> observed (progress (record_read st sz rest))"
    using assms(2) by (simp add: record_read_def)
  show ?thesis
    unfolding read_cswitch_accepts [OF assms(1)] Let_def
    by (simp add: n checkpoint_passes [OF o]) (simp add: record_read_def)
qed

lemma read_cswitch_keeps:
  assumes "next_record st header sz d rest"
    and "0 \<le> observed (progress st)"
    and "bt < m_end (converted to_nano header d)"
  shows "\<exists>st'. read_cswitch to_nano header bt tid st = Inr st' \<and>
     blocks_counter st' = blocks_counter st + 1 \<and>
     sync (root_of (threaded_trees st') tid) = sync (root_of (threaded_trees st) tid) @ [blocks_counter st]"
  unfolding read_cswitch_accepts [OF assms(1)] Let_def
  using assms(2,3)
  by (simp add: checkpoint_def update_progress_def exchange_def Let_def record_read_def)


subsection \<open>Serialized descriptors\<close>

lemma takeWhile_upt_from:
  "i < n \<Longrightarrow> takeWhile P [i ..< n] = (if P i then i # takeWhile P [Suc i ..< n] else [])"
  by (simp add: upt_conv_Cons)

lemma serializeDescriptors_from_prefix:
  assumes "sz \<le> length ds"
  shows "serializeDescriptors_from L ds sz i =
     (let pre = takeWhile (id_matches ds) [i ..< sz]; k = i + length pre
      in if k < sz \<and> ds ! k = None then Inl InvalidAccess
         else Inr (concat (map (\<lambda>j. descriptor_fields L (the (ds ! j))) pre)))"
  using assms
proof (induction L ds sz i rule: serializeDescriptors_from.induct)
  case (1 L ds sz i)
  show ?case
  proof (cases "i < sz")
    case False
    then show ?thesis
      by (subst serializeDescriptors_from.simps) simp
  next
    case True
    with "1.prems" have il: "i < length ds" by simp
    show ?thesis
    proof (cases "ds ! i")
      case None
      with True il show ?thesis
        by (subst serializeDescriptors_from.simps)
           (simp add: descriptor_at_def takeWhile_upt_from id_matches_def)
    next
      case (Some desc)
      show ?thesis
      proof (cases "unat (d_id desc) = i")
        case False
        with True il Some show ?thesis
          by (subst serializeDescriptors_from.simps)
             (simp add: descriptor_at_def takeWhile_upt_from id_matches_def)
      next
        case same: True
        from True il Some have da: "descriptor_at ds i = Inr desc"
          by (simp add: descriptor_at_def)
        have m: "id_matches ds i" using Some same by (simp add: id_matches_def)
        let ?rest = "takeWhile (id_matches ds) [i + 1 ..< sz]"
        have IH: "serializeDescriptors_from L ds sz (i + 1) =
          (if i + 1 + length ?rest < sz \<and> ds ! (i + 1 + length ?rest) = None then Inl InvalidAccess
           else Inr (concat (map (\<lambda>j. descriptor_fields L (the (ds ! j))) ?rest)))"
          using "1.IH" [OF True da _ "1.prems"] same by (simp only: Let_def simp_thms)
        have unf: "serializeDescriptors_from L ds sz i =
          (case serializeDescriptors_from L ds sz (i + 1) of
             Inl e \<Rightarrow> Inl e | Inr rest \<Rightarrow> Inr (descriptor_fields L desc @ rest))"
          by (subst serializeDescriptors_from.simps) (simp add: True da same descriptor_fields_def split: sum.splits)
        have tw: "takeWhile (id_matches ds) [i ..< sz] = i # ?rest"
          using True m by (simp add: upt_conv_Cons)
        have len: "i + length (i # ?rest) = i + 1 + length ?rest" by simp
        show ?thesis
          unfolding unf IH tw Let_def len by (simp add: Some split: sum.splits)
      qed
    qed
  qed
qed

lemma matching_prefix_upt:
  "matching_prefix ds n = [0 ..< length (matching_prefix ds n)]"
proof -
  let ?k = "length (matching_prefix ds n)"
  have "?k \<le> n" unfolding matching_prefix_def using length_takeWhile_le [of "id_matches ds" "[0 ..< n]"] by simp
  moreover have "matching_prefix ds n = take ?k [0 ..< n]"
    unfolding matching_prefix_def by (rule takeWhile_eq_take)
  ultimately show ?thesis by (simp add: min_def)
qed

lemma matching_prefix_all:
  "j < length (matching_prefix ds n) \<Longrightarrow> id_matches ds j"
proof -
  assume a: "j < length (matching_prefix ds n)"
  then have "j \<in> set (matching_prefix ds n)"
    by (subst matching_prefix_upt) simp
  then show ?thesis unfolding matching_prefix_def by (rule set_takeWhileD [THEN conjunct2])
qed

lemma matching_prefix_stop:
  "length (matching_prefix ds n) < n \<Longrightarrow> \<not> id_matches ds (length (matching_prefix ds n))"
  unfolding matching_prefix_def
  using nth_length_takeWhile [of "id_matches ds" "[0 ..< n]"] by simp

lemma serializeDescriptors_eq:
  "serializeDescriptors L ds descriptors_count =
     (let n = min (length ds) (unat descriptors_count); k = length (matching_prefix ds n)
      in if k < n \<and> ds ! k = None then Inl InvalidAccess
         else Inr (concat (map (\<lambda>j. descriptor_fields L (the (ds ! j))) [0 ..< k])))"
proof -
  have "min (length ds) (unat descriptors_count) \<le> length ds" by simp
  from serializeDescriptors_from_prefix [OF this, of L 0]
  show ?thesis
    unfolding serializeDescriptors_def Let_def matching_prefix_def [symmetric]
    using matching_prefix_upt [of ds "min (length ds) (unat descriptors_count)"] by simp
qed

lemma read_descriptor_placeholder:
  assumes "toks (inFile st) = Num 0 # rest" and "\<not> eofbit (inFile st)"
  shows "\<exists>st'. read_descriptor dms st = Inr st' \<and> descriptors st' = descriptors st @ [None] \<and>
     toks (inFile st') = rest"
  using assms by (simp add: read_descriptor_def get_num_def read_num_def Let_def)


subsection \<open>Range selection and the encoder on the sample models\<close>




lemma lower_bound_le: "lower_bound cmp xs first len \<le> first + len"
proof (induction cmp xs first len rule: lower_bound.induct)
  case (1 cmp xs first len)
  show ?case
  proof (cases "len = 0")
    case True
    then show ?thesis by (subst lower_bound.simps) simp
  next
    case False
    let ?half = "len div 2"
    let ?middle = "first + ?half"
    show ?thesis
    proof (cases "cmp (xs ! ?middle)")
      case True
      from "1.IH"(1) [OF False refl refl True]
      have "lower_bound cmp xs (?middle + 1) (len - ?half - 1) \<le> ?middle + 1 + (len - ?half - 1)" .
      moreover from False have "?middle + 1 + (len - ?half - 1) \<le> first + len" by simp
      moreover from False True have "lower_bound cmp xs first len =
          lower_bound cmp xs (?middle + 1) (len - ?half - 1)"
        by (subst lower_bound.simps) (simp add: Let_def)
      ultimately show ?thesis by simp
    next
      case c: False
      from "1.IH"(2) [OF False refl refl c]
      have "lower_bound cmp xs first ?half \<le> first + ?half" .
      moreover from False c have "lower_bound cmp xs first len = lower_bound cmp xs first ?half"
        by (subst lower_bound.simps) (simp add: Let_def)
      ultimately show ?thesis by simp
    qed
  qed
qed

lemma findRange_excludes_last:
  "range_end (findRange chn bt et getter) \<le> length chn \<and>
   (range_begin (findRange chn bt et getter) < range_end (findRange chn bt et getter) \<longrightarrow>
      range_end (findRange chn bt et getter) < length chn)"
proof -
  have "lower_bound (\<lambda>element. m_begin (node (getter element)) \<le> et) chn 0 (length chn) \<le> length chn"
    using lower_bound_le [of _ chn 0 "length chn"] by simp
  then show ?thesis
    by (auto simp: findRange_def Let_def)
qed










lemma lower_bound_all:
  "(\<And>j. first \<le> j \<Longrightarrow> j < first + len \<Longrightarrow> cmp (xs ! j)) \<Longrightarrow>
     lower_bound cmp xs first len = first + len"
proof (induction cmp xs first len rule: lower_bound.induct)
  case (1 cmp xs first len)
  show ?case
  proof (cases "len = 0")
    case True
    then show ?thesis by (subst lower_bound.simps) simp
  next
    case False
    let ?half = "len div 2"
    let ?middle = "first + ?half"
    from False have c: "cmp (xs ! ?middle)" using "1.prems" [of ?middle] by simp
    have "lower_bound cmp xs (?middle + 1) (len - ?half - 1) = ?middle + 1 + (len - ?half - 1)"
    proof (rule "1.IH"(1) [OF False refl refl c])
      fix j
      assume "?middle + 1 \<le> j" and "j < ?middle + 1 + (len - ?half - 1)"
      with False show "cmp (xs ! j)" using "1.prems" [of j] by simp
    qed
    moreover from False have "?middle + 1 + (len - ?half - 1) = first + len" by simp
    moreover from False c have "lower_bound cmp xs first len =
        lower_bound cmp xs (?middle + 1) (len - ?half - 1)"
      by (subst lower_bound.simps) (simp add: Let_def)
    ultimately show ?thesis by simp
  qed
qed

lemma findRange_all_begun:
  assumes "\<forall>c\<in>set chn. m_begin (node (getter c)) \<le> et"
  shows "findRange chn bt et getter = \<lparr>range_begin = length chn, range_end = length chn\<rparr>"
proof -
  have l: "lower_bound (\<lambda>element. m_begin (node (getter element)) \<le> et) chn 0 (length chn) = length chn"
    using lower_bound_all [of 0 "length chn" "\<lambda>element. m_begin (node (getter element)) \<le> et" chn] assms
    by simp
  show ?thesis
    unfolding findRange_def Let_def l by simp
qed

lemma checkpoint_write_cases:
  "(\<exists>st'. checkpoint_write st v = Inl (Interrupted, st') \<and> str st' = str st \<and>
        \<not> (pending (wprogress st) = [] \<and> 0 \<le> cell (wprogress st))) \<or>
   (\<exists>st'. checkpoint_write st v = Inr st' \<and> str st' = str st \<and>
        (pending (wprogress st) = [] \<and> 0 \<le> v \<longrightarrow> pending (wprogress st') = [] \<and> 0 \<le> cell (wprogress st')))"
  by (auto simp: checkpoint_write_def update_progress_write_def exchange_def observed_def Let_def
           split: list.splits option.splits)

lemma calculate_ranges_nothing:
  assumes "\<forall>(tid, tree)\<in>set trees.
             (\<forall>c\<in>set (root_children tree). m_begin (node (getter c)) \<le> et) \<and>
             (\<forall>c\<in>set (sync tree). m_begin (node (getter c)) \<le> et)"
    and "blocksCount (total acc) = 0"
  shows "case calculate_ranges (Suc f) L ds getter bt et n trees i acc st of
           None \<Rightarrow> False
         | Some (Inl (e, st')) \<Rightarrow> e = Interrupted \<and> str st' = str st \<and>
              \<not> (pending (wprogress st) = [] \<and> 0 \<le> cell (wprogress st))
         | Some (Inr (acc', st')) \<Rightarrow> blocksCount (total acc') = 0 \<and> str st' = str st"
  using assms
proof (induction trees arbitrary: i acc st)
  case Nil
  then show ?case by simp
next
  case (Cons a trees)
  obtain tid tree where a: "a = (tid, tree)" by (cases a)
  from Cons.prems a have b: "\<forall>c\<in>set (root_children tree). m_begin (node (getter c)) \<le> et"
    and s: "\<forall>c\<in>set (sync tree). m_begin (node (getter c)) \<le> et"
    and rest: "\<forall>(tid, tree)\<in>set trees.
             (\<forall>c\<in>set (root_children tree). m_begin (node (getter c)) \<le> et) \<and>
             (\<forall>c\<in>set (sync tree). m_begin (node (getter c)) \<le> et)"
    by auto
  note rb = findRange_all_begun [OF b, of bt]
  note rs = findRange_all_begun [OF s, of bt]
  let ?acc' = "\<lparr>total = add_count (add_count (total acc) \<lparr>usedMemorySize = 0, blocksCount = 0\<rparr>)
                    \<lparr>usedMemorySize = 0, blocksCount = 0\<rparr>,
                 beginTime = beginTime acc, endTime = endTime acc,
                 block_ranges = (block_ranges acc)(tid \<mapsto>
                    \<lparr>blocksMemoryAndCount = \<lparr>usedMemorySize = 0, blocksCount = 0\<rparr>,
                     cswitchesMemoryAndCount = \<lparr>usedMemorySize = 0, blocksCount = 0\<rparr>,
                     blocks_range = \<lparr>range_begin = length (root_children tree), range_end = length (root_children tree)\<rparr>,
                     cswitches_range = \<lparr>range_begin = length (sync tree), range_end = length (sync tree)\<rparr>\<rparr>)\<rparr>"
  have step: "calculate_ranges (Suc f) L ds getter bt et n (a # trees) i acc st =
      (case checkpoint_write st (15 div int (n - i)) of
         Inl err \<Rightarrow> Some (Inl err)
       | Inr st' \<Rightarrow> calculate_ranges (Suc f) L ds getter bt et n trees (i + 1) ?acc' st')"
    by (simp add: a rb rs calculateUsedMemoryAndBlocksCount_def Let_def)
  have z: "blocksCount (total ?acc') = 0"
    using Cons.prems(2) by (simp add: add_count_def)
  have nn: "(0::int) \<le> 15 div int (n - i)" by (simp add: div_int_pos_iff)
  from checkpoint_write_cases [of st "15 div int (n - i)"] show ?case
  proof (elim disjE exE conjE)
    fix st'
    assume "checkpoint_write st (15 div int (n - i)) = Inl (Interrupted, st')" "str st' = str st"
      "\<not> (pending (wprogress st) = [] \<and> 0 \<le> cell (wprogress st))"
    then show ?thesis by (simp add: step)
  next
    fix st'
    assume c: "checkpoint_write st (15 div int (n - i)) = Inr st'" and w: "str st' = str st"
      and q: "pending (wprogress st) = [] \<and> 0 \<le> 15 div int (n - i) \<longrightarrow>
                pending (wprogress st') = [] \<and> 0 \<le> cell (wprogress st')"
    from Cons.IH [where i = "i + 1" and st = st' and acc = ?acc', OF rest z] c w q nn show ?thesis
      by (auto simp: step split: option.splits sum.splits prod.splits)
  qed
qed

subsection \<open>Statistics\<close>

lemma add_children_duration_ok:
  "\<forall>c\<in>set cs. c < length bs \<Longrightarrow>
   add_children_duration bs cs s =
     Inr (s\<lparr>total_children_duration :=
              total_children_duration s + sum_list (map (\<lambda>c. duration (node (bs ! c))) cs)\<rparr>)"
  by (induction cs arbitrary: s) (simp_all add: block_at_def add.assoc)

lemma update_statistics_new:
  assumes "stats_map (m_id (node cur)) = None"
    and "cc \<longrightarrow> (\<forall>c\<in>set (children cur). c < length bs)"
  shows "\<exists>s. update_statistics stats_map cur idx par bs cc = Inr (stats_map(m_id (node cur) \<mapsto> s)) \<and>
             calls_number s = 1 \<and> total_duration s = duration (node cur) \<and>
             max_duration_block s = idx \<and> min_duration_block s = idx"
proof (cases cc)
  case True
  with assms show ?thesis
    by (auto simp add: update_statistics_def Let_def add_children_duration_ok new_BlockStatistics_def
          intro!: exI)
next
  case False
  with assms(1) show ?thesis
    by (auto simp add: update_statistics_def Let_def new_BlockStatistics_def intro!: exI)
qed

lemma update_statistics_existing:
  assumes "stats_map (m_id (node cur)) = Some s0"
    and "cc \<longrightarrow> (\<forall>c\<in>set (children cur). c < length bs)"
    and "max_duration_block s0 < length bs" and "min_duration_block s0 < length bs"
  shows "\<exists>s. update_statistics stats_map cur idx par bs cc = Inr (stats_map(m_id (node cur) \<mapsto> s)) \<and>
             calls_number s = calls_number s0 + 1 \<and>
             total_duration s = total_duration s0 + duration (node cur) \<and>
             max_duration_block s =
               (if duration (node (bs ! max_duration_block s0)) < duration (node cur) then idx
                else max_duration_block s0) \<and>
             min_duration_block s =
               (if duration (node cur) < duration (node (bs ! min_duration_block s0)) then idx
                else min_duration_block s0)"
proof (cases cc)
  case True
  with assms show ?thesis
    by (auto simp add: update_statistics_def Let_def add_children_duration_ok block_at_def
          intro!: exI)
next
  case False
  with assms show ?thesis
    by (auto simp add: update_statistics_def Let_def block_at_def intro!: exI)
qed

lemma aggregate_existing:
  assumes "\<forall>i\<in>set is. occurrence bs k i"
    and "stats_map k = Some s0"
    and "max_duration_block s0 < length bs" and "min_duration_block s0 < length bs"
  shows "\<exists>m s. aggregate stats_map bs is = Inr m \<and> m k = Some s \<and>
           calls_number s = calls_number s0 + of_nat (length is) \<and>
           total_duration s = total_duration s0 + sum_list (map (\<lambda>i. duration (node (bs ! i))) is)"
  using assms
proof (induction "is" arbitrary: stats_map s0)
  case Nil
  then show ?case by simp
next
  case (Cons i "is")
  from Cons.prems(1) have occ: "occurrence bs k i" by simp
  then have i: "i < length bs" and k: "m_id (node (bs ! i)) = k"
    and ch: "\<forall>c\<in>set (children (bs ! i)). c < length bs"
    by (simp_all add: occurrence_def)
  from update_statistics_existing [of stats_map "bs ! i" s0 True bs i 4294967295] Cons.prems k ch
  obtain s1 where u: "update_statistics stats_map (bs ! i) i 4294967295 bs True = Inr (stats_map(k \<mapsto> s1))"
    and c1: "calls_number s1 = calls_number s0 + 1"
    and t1: "total_duration s1 = total_duration s0 + duration (node (bs ! i))"
    and mx: "max_duration_block s1 < length bs" and mn: "min_duration_block s1 < length bs"
    using i by (auto split: if_splits)
  have "\<exists>m s. aggregate (stats_map(k \<mapsto> s1)) bs is = Inr m \<and> m k = Some s \<and>
           calls_number s = calls_number s1 + of_nat (length is) \<and>
           total_duration s = total_duration s1 + sum_list (map (\<lambda>i. duration (node (bs ! i))) is)"
    by (rule Cons.IH) (use Cons.prems(1) mx mn in simp_all)
  then obtain m s where "aggregate (stats_map(k \<mapsto> s1)) bs is = Inr m" "m k = Some s"
    "calls_number s = calls_number s1 + of_nat (length is)"
    "total_duration s = total_duration s1 + sum_list (map (\<lambda>i. duration (node (bs ! i))) is)"
    by blast
  with u c1 t1 i show ?case by (simp add: block_at_def add.assoc)
qed

lemma aggregate_new:
  assumes "\<forall>i\<in>set is. occurrence bs k i"
    and "stats_map k = None" and "is \<noteq> []"
  shows "\<exists>m s. aggregate stats_map bs is = Inr m \<and> m k = Some s \<and>
           calls_number s = of_nat (length is) \<and>
           total_duration s = sum_list (map (\<lambda>i. duration (node (bs ! i))) is)"
proof (cases "is")
  case Nil
  with assms(3) show ?thesis by simp
next
  case (Cons i js)
  from assms(1) Cons have occ: "occurrence bs k i" by simp
  then have i: "i < length bs" and k: "m_id (node (bs ! i)) = k"
    and ch: "\<forall>c\<in>set (children (bs ! i)). c < length bs"
    by (simp_all add: occurrence_def)
  from update_statistics_new [of stats_map "bs ! i" True bs i 4294967295] assms(2) k ch
  obtain s1 where u: "update_statistics stats_map (bs ! i) i 4294967295 bs True = Inr (stats_map(k \<mapsto> s1))"
    and c1: "calls_number s1 = 1"
    and t1: "total_duration s1 = duration (node (bs ! i))"
    and mx: "max_duration_block s1 = i" and mn: "min_duration_block s1 = i"
    by auto
  have "\<exists>m s. aggregate (stats_map(k \<mapsto> s1)) bs js = Inr m \<and> m k = Some s \<and>
           calls_number s = calls_number s1 + of_nat (length js) \<and>
           total_duration s = total_duration s1 + sum_list (map (\<lambda>i. duration (node (bs ! i))) js)"
    by (rule aggregate_existing) (use assms(1) Cons mx mn i in simp_all)
  then obtain m s where "aggregate (stats_map(k \<mapsto> s1)) bs js = Inr m" "m k = Some s"
    "calls_number s = calls_number s1 + of_nat (length js)"
    "total_duration s = total_duration s1 + sum_list (map (\<lambda>i. duration (node (bs ! i))) js)"
    by blast
  with u c1 t1 i Cons show ?thesis by (simp add: block_at_def)
qed

lemma sum_list_mset_eq:
  fixes f :: "nat \<Rightarrow> 64 word"
  shows "mset xs = mset ys \<Longrightarrow> sum_list (map f xs) = sum_list (map f ys)"
  by (metis mset_map sum_mset_sum_list)


lemma aggregate_order:
  assumes occ: "\<forall>i\<in>set is. occurrence bs k i" and new: "per_thread k = None"
    and ne: "is \<noteq> []" and perm: "mset is' = mset is"
  shows "\<exists>m s m' s'. aggregate per_thread bs is = Inr m \<and> m k = Some s \<and>
           calls_number s = of_nat (length is) \<and>
           (length is < 2 ^ 32 \<longrightarrow> unat (calls_number s) = length is) \<and>
           total_duration s = sum_list (map (\<lambda>i. duration (node (bs ! i))) is) \<and>
           aggregate per_thread bs is' = Inr m' \<and> m' k = Some s' \<and>
           calls_number s' = calls_number s \<and> total_duration s' = total_duration s"
proof -
  from perm have st: "set is' = set is" by (rule mset_eq_setD)
  with occ have a1: "\<forall>i\<in>set is'. occurrence bs k i" by simp
  from st ne have a2: "is' \<noteq> []" by auto
  from aggregate_new [of "is" bs k per_thread, OF occ new ne] obtain m s where 1: "aggregate per_thread bs is = Inr m" "m k = Some s"
    "calls_number s = of_nat (length is)"
    "total_duration s = sum_list (map (\<lambda>i. duration (node (bs ! i))) is)"
    by blast
  from aggregate_new [of is' bs k per_thread, OF a1 new a2] obtain m' s' where 2: "aggregate per_thread bs is' = Inr m'" "m' k = Some s'"
    "calls_number s' = of_nat (length is')"
    "total_duration s' = sum_list (map (\<lambda>i. duration (node (bs ! i))) is')"
    by blast
  from perm have len: "length is' = length is" by (rule mset_eq_length)
  from perm have sm: "sum_list (map (\<lambda>i. duration (node (bs ! i))) is') =
      sum_list (map (\<lambda>i. duration (node (bs ! i))) is)"
    by (rule sum_list_mset_eq)
  have un: "length is < 2 ^ 32 \<longrightarrow> unat (calls_number s) = length is"
    unfolding 1(3) by (simp add: unsigned_of_nat take_bit_nat_eq_self)
  have c: "calls_number s' = calls_number s" unfolding 1(3) 2(3) len ..
  have t: "total_duration s' = total_duration s" unfolding 1(4) 2(4) sm ..
  show ?thesis
    by (intro exI [of _ m] exI [of _ s] exI [of _ m'] exI [of _ s'] conjI 1 2 un c t)
qed

text \<open>
  C6. A single update of the per-thread map either creates the statistics of a new key (one
  call, the occurrence's duration as total, the occurrence as longest and shortest) or
  increments the calls, adds the duration and moves the longest and shortest references by
  comparing with the durations of the blocks they refer to. Aggregating the occurrences
  \<open>is\<close> of one key from a map without it gives as many calls as occurrences and the sum of
  their durations, and any reordering \<open>is'\<close> gives the same two numbers.
\<close>

theorem per_thread_statistics:
  "(stats_map (m_id (node cur)) = None \<and> (cc \<longrightarrow> (\<forall>c\<in>set (children cur). c < length bs)) \<longrightarrow>
      (\<exists>s. update_statistics stats_map cur idx par bs cc = Inr (stats_map(m_id (node cur) \<mapsto> s)) \<and>
           calls_number s = 1 \<and> total_duration s = duration (node cur) \<and>
           max_duration_block s = idx \<and> min_duration_block s = idx)) \<and>
   (stats_map (m_id (node cur)) = Some s0 \<and> (cc \<longrightarrow> (\<forall>c\<in>set (children cur). c < length bs)) \<and>
    max_duration_block s0 < length bs \<and> min_duration_block s0 < length bs \<longrightarrow>
      (\<exists>s. update_statistics stats_map cur idx par bs cc = Inr (stats_map(m_id (node cur) \<mapsto> s)) \<and>
           calls_number s = calls_number s0 + 1 \<and>
           total_duration s = total_duration s0 + duration (node cur) \<and>
           max_duration_block s =
             (if duration (node (bs ! max_duration_block s0)) < duration (node cur) then idx
              else max_duration_block s0) \<and>
           min_duration_block s =
             (if duration (node cur) < duration (node (bs ! min_duration_block s0)) then idx
              else min_duration_block s0))) \<and>
   ((\<forall>i\<in>set is. occurrence bs k i) \<and> per_thread k = None \<and> is \<noteq> [] \<and> mset is' = mset is \<longrightarrow>
      (\<exists>m s m' s'. aggregate per_thread bs is = Inr m \<and> m k = Some s \<and>
           calls_number s = of_nat (length is) \<and>
           (length is < 2 ^ 32 \<longrightarrow> unat (calls_number s) = length is) \<and>
           total_duration s = sum_list (map (\<lambda>i. duration (node (bs ! i))) is) \<and>
           aggregate per_thread bs is' = Inr m' \<and> m' k = Some s' \<and>
           calls_number s' = calls_number s \<and> total_duration s' = total_duration s))"
proof (intro conjI impI)
  assume h: "stats_map (m_id (node cur)) = None \<and> (cc \<longrightarrow> (\<forall>c\<in>set (children cur). c < length bs))"
  show "\<exists>s. update_statistics stats_map cur idx par bs cc = Inr (stats_map(m_id (node cur) \<mapsto> s)) \<and>
           calls_number s = 1 \<and> total_duration s = duration (node cur) \<and>
           max_duration_block s = idx \<and> min_duration_block s = idx"
    by (rule update_statistics_new [of stats_map cur cc bs idx par]) (use h in simp_all)
next
  assume h: "stats_map (m_id (node cur)) = Some s0 \<and> (cc \<longrightarrow> (\<forall>c\<in>set (children cur). c < length bs)) \<and>
    max_duration_block s0 < length bs \<and> min_duration_block s0 < length bs"
  show "\<exists>s. update_statistics stats_map cur idx par bs cc = Inr (stats_map(m_id (node cur) \<mapsto> s)) \<and>
           calls_number s = calls_number s0 + 1 \<and>
           total_duration s = total_duration s0 + duration (node cur) \<and>
           max_duration_block s =
             (if duration (node (bs ! max_duration_block s0)) < duration (node cur) then idx
              else max_duration_block s0) \<and>
           min_duration_block s =
             (if duration (node cur) < duration (node (bs ! min_duration_block s0)) then idx
              else min_duration_block s0)"
    by (rule update_statistics_existing [of stats_map cur s0 cc bs idx par]) (use h in simp_all)
next
  assume a: "(\<forall>i\<in>set is. occurrence bs k i) \<and> per_thread k = None \<and> is \<noteq> [] \<and> mset is' = mset is"
  show "\<exists>m s m' s'. aggregate per_thread bs is = Inr m \<and> m k = Some s \<and>
           calls_number s = of_nat (length is) \<and>
           (length is < 2 ^ 32 \<longrightarrow> unat (calls_number s) = length is) \<and>
           total_duration s = sum_list (map (\<lambda>i. duration (node (bs ! i))) is) \<and>
           aggregate per_thread bs is' = Inr m' \<and> m' k = Some s' \<and>
           calls_number s' = calls_number s \<and> total_duration s' = total_duration s"
    by (rule aggregate_order [of "is" bs k per_thread is']) (use a in simp_all)
qed

theorem per_thread_statistics_witness:
  "(\<exists>s. update_statistics Map.empty (three_calls ! 0) 0 4294967295 three_calls True
          = Inr (Map.empty(m_id (node (three_calls ! 0)) \<mapsto> s)) \<and>
        calls_number s = 1 \<and> total_duration s = duration (node (three_calls ! 0)) \<and>
        max_duration_block s = 0 \<and> min_duration_block s = 0) \<and>
   (\<exists>m s m' s'. aggregate Map.empty three_calls [0, 1, 2] = Inr m \<and> m 7 = Some s \<and>
        calls_number s = 3 \<and> unat (calls_number s) = 3 \<and> total_duration s = 17 \<and>
        aggregate Map.empty three_calls [2, 0, 1] = Inr m' \<and> m' 7 = Some s' \<and>
        calls_number s' = calls_number s \<and> total_duration s' = total_duration s)"
proof -
  have p1: "Map.empty (m_id (node (three_calls ! 0))) = None \<and>
      (True \<longrightarrow> (\<forall>c\<in>set (children (three_calls ! 0)). c < length three_calls))"
    by (simp add: three_calls_def)
  have p3: "(\<forall>i\<in>set [0, 1, 2]. occurrence three_calls 7 i) \<and> Map.empty (7 :: block_id_t) = None \<and>
      [0, 1, 2 :: nat] \<noteq> [] \<and> mset [2, 0, 1 :: nat] = mset [0, 1, 2]"
    by (simp add: occurrence_def three_calls_def)
  have sm: "sum_list (map (\<lambda>i. duration (node (three_calls ! i))) [0, 1, 2]) = 17"
    by (simp add: three_calls_def duration_def)
  note T = per_thread_statistics [of Map.empty "three_calls ! 0" True three_calls 0 4294967295
        undefined "[0, 1, 2]" 7 Map.empty "[2, 0, 1]"]
  from T [THEN conjunct1, rule_format, OF p1] T [THEN conjunct2, THEN conjunct2, rule_format, OF p3]
  show ?thesis unfolding sm by (simp del: aggregate.simps add: numeral_3_eq_3)
qed

subsection \<open>Evaluation of the decoder\<close>

lemmas decoder_defs =
  fillTreesFromStream_def start_def checkpoint_def update_progress_def exchange_def observed_def
  get_num_def read_num_def get_data_def read_data_def get_desc_def read_desc_def get_chars_def
  read_chars_def isCompatibleVersion_def MIN_COMPATIBLE_VERSION_def EASY_V_100_def EASY_V_130_def
  EASY_V_200_def readHeader_v2_def readHeader_v1_def new_EasyFileHeader_def read_descriptors.simps
  read_descriptor_def to_int_def read_threads.simps read_thread_def cswitch_loop.simps
  block_loop.simps read_block_def read_cswitch_def attach_block_def at_def block_at_def
  descriptor_at_def new_BlocksTree_def new_BlocksTreeRoot_def set_back_def root_of_def store_def
  Let_def

lemmas sample_defs = sample_header_def sample_descriptor_def blk_def quiet_def

lemma nesting_decoded:
  "\<exists>st. fillTreesFromStream sig to_nano (start (nesting_trace (unat sig)) quiet)
      = Inr (\<lparr>signature = sig, version = 33554432, pid = 1, cpu_frequency = 0,
               begin_time = 0, end_time = 100, memory_size = 63, descriptors_memory_size = 30,
               total_blocks_number = 3, total_descriptors_number = 1\<rparr>, st) \<and>
     blocks st =
       [\<lparr>node = blk 10 40, children = [], depth = 0\<rparr>,
        \<lparr>node = blk 50 90, children = [], depth = 0\<rparr>,
        \<lparr>node = blk 0 100, children = [0, 1], depth = 1\<rparr>] \<and>
     map (\<lambda>(tid, root). (tid, root_children root)) (threaded_trees st) = [(1, [2])] \<and>
     blocks_counter st = 3"
  by (simp add: decoder_defs nesting_trace_def sample_defs)

text \<open>
  C3, as the code has it. For one thread whose records arrive as B (10 to 40), C (50 to 90),
  A (0 to 100), the decoder returns three blocks, the root's children are [A], the children of
  A are [B, C] in that order, the depth of A is 1 and the depth of B and of C is 0: the depth
  of a block is the number of levels below it.
\<close>

theorem nesting_reconstruction:
  "decoded_blocks (fillTreesFromStream sig to_nano (start (nesting_trace (unat sig)) quiet)) =
     [\<lparr>node = blk 10 40, children = [], depth = 0\<rparr>,
      \<lparr>node = blk 50 90, children = [], depth = 0\<rparr>,
      \<lparr>node = blk 0 100, children = [0, 1], depth = 1\<rparr>] \<and>
   decoded_roots (fillTreesFromStream sig to_nano (start (nesting_trace (unat sig)) quiet)) = [(1, [2])] \<and>
   return_value (fillTreesFromStream sig to_nano (start (nesting_trace (unat sig)) quiet)) = 3"
  using nesting_decoded [of sig to_nano]
  by (auto simp: decoded_blocks_def decoded_roots_def return_value_def)

text \<open>
  C3, as the claim states it, fails: the depths of B, C and A are not 2, 2 and 1.
\<close>

theorem nesting_depths_counterexample:
  "map depth (decoded_blocks (fillTreesFromStream 7 (\<lambda>f t. t) (start (nesting_trace 7) quiet)))
     \<noteq> [2, 2, 1]"
  using nesting_decoded [of 7 "\<lambda>f t. t"]
  by (auto simp: decoded_blocks_def)

subsection \<open>Header validation\<close>

text \<open>
  C7. A decode that succeeds has read the expected signature, a version not below
  \<open>MIN_COMPATIBLE_VERSION\<close> and four non-zero count and size fields. A first field that is
  not the signature ends the decode with \<open>WrongSignature\<close> after that one field; a version
  below the floor ends it with \<open>IncompatibleVersion\<close> after the two fields; in both cases, and
  when the header fails on a zero field, no descriptor and no block has been read and the
  value returned is 0. In both layouts the header is read successfully exactly when the block
  count, the memory size, the descriptor count and the descriptors' memory size are all
  non-zero, and a failure of either header reader is one of the four zero-field errors.
\<close>

theorem header_validation:
  "(fillTreesFromStream sig to_nano st = Inr (header, st') \<longrightarrow>
      signature header = sig \<and> MIN_COMPATIBLE_VERSION \<le> version header \<and>
      total_blocks_number header \<noteq> 0 \<and> memory_size header \<noteq> 0 \<and>
      total_descriptors_number header \<noteq> 0 \<and> descriptors_memory_size header \<noteq> 0) \<and>
   (toks (inFile st) = Num s # rest1 \<and> \<not> eofbit (inFile st) \<and> 0 \<le> observed (progress st) \<and>
    of_nat s \<noteq> sig \<longrightarrow>
      (\<exists>st1. fillTreesFromStream sig to_nano st = Inl (WrongSignature, st1) \<and>
         toks (inFile st1) = rest1 \<and> descriptors st1 = descriptors st \<and> blocks st1 = blocks st)) \<and>
   (toks (inFile st) = Num s # Num v # rest2 \<and> \<not> eofbit (inFile st) \<and> 0 \<le> observed (progress st) \<and>
    of_nat s = sig \<and> (of_nat v :: 32 word) < MIN_COMPATIBLE_VERSION \<longrightarrow>
      (\<exists>st2. fillTreesFromStream sig to_nano st = Inl (IncompatibleVersion, st2) \<and>
         toks (inFile st2) = rest2 \<and> descriptors st2 = descriptors st \<and> blocks st2 = blocks st)) \<and>
   (fillTreesFromStream sig to_nano st = Inl (e, st3) \<and> zero_field e \<longrightarrow>
      descriptors st3 = descriptors st \<and> blocks st3 = blocks st \<and>
      return_value (fillTreesFromStream sig to_nano st) = 0) \<and>
   (toks (inFile hs) = (if EASY_V_100 < version h then [Num a] else []) @
       Num b # Num c # Num d # Num tbn # Num ms # Num tdn # Num dms # rest \<and> \<not> eofbit (inFile hs) \<longrightarrow>
      ((\<exists>x. readHeader_v1 h hs = Inr x) \<longleftrightarrow>
       (of_nat ms \<noteq> (0 :: 64 word) \<and> of_nat dms \<noteq> (0 :: 64 word) \<and>
        of_nat tbn \<noteq> (0 :: 32 word) \<and> of_nat tdn \<noteq> (0 :: 32 word)))) \<and>
   (toks (inFile hs) = Num a # Num b # Num c # Num d # Num ms # Num dms # Num tbn # Num tdn # rest \<and>
    \<not> eofbit (inFile hs) \<longrightarrow>
      ((\<exists>x. readHeader_v2 h hs = Inr x) \<longleftrightarrow>
       (of_nat ms \<noteq> (0 :: 64 word) \<and> of_nat dms \<noteq> (0 :: 64 word) \<and>
        of_nat tbn \<noteq> (0 :: 32 word) \<and> of_nat tdn \<noteq> (0 :: 32 word)))) \<and>
   (readHeader_v1 h hs = Inl (e1, hs1) \<longrightarrow> zero_field e1) \<and>
   (readHeader_v2 h hs = Inl (e2, hs2) \<longrightarrow> zero_field e2)"
proof (intro conjI impI)
  assume "fillTreesFromStream sig to_nano st = Inr (header, st')"
  then have v: "signature header = sig \<and> MIN_COMPATIBLE_VERSION \<le> version header \<and>
      total_blocks_number header \<noteq> 0 \<and> memory_size header \<noteq> 0 \<and>
      total_descriptors_number header \<noteq> 0 \<and> descriptors_memory_size header \<noteq> 0"
    by (rule decode_success_header)
  from v show "signature header = sig" by simp
  from v show "MIN_COMPATIBLE_VERSION \<le> version header" by simp
  from v show "total_blocks_number header \<noteq> 0" by simp
  from v show "memory_size header \<noteq> 0" by simp
  from v show "total_descriptors_number header \<noteq> 0" by simp
  from v show "descriptors_memory_size header \<noteq> 0" by simp
next
  assume "toks (inFile st) = Num s # rest1 \<and> \<not> eofbit (inFile st) \<and> 0 \<le> observed (progress st) \<and>
    of_nat s \<noteq> sig"
  then show "\<exists>st1. fillTreesFromStream sig to_nano st = Inl (WrongSignature, st1) \<and>
         toks (inFile st1) = rest1 \<and> descriptors st1 = descriptors st \<and> blocks st1 = blocks st"
    using decode_wrong_signature [of st s rest1 sig to_nano] by simp
next
  assume "toks (inFile st) = Num s # Num v # rest2 \<and> \<not> eofbit (inFile st) \<and> 0 \<le> observed (progress st) \<and>
    of_nat s = sig \<and> (of_nat v :: 32 word) < MIN_COMPATIBLE_VERSION"
  then show "\<exists>st2. fillTreesFromStream sig to_nano st = Inl (IncompatibleVersion, st2) \<and>
         toks (inFile st2) = rest2 \<and> descriptors st2 = descriptors st \<and> blocks st2 = blocks st"
    using decode_incompatible_version [of st s v rest2 sig to_nano] by simp
next
  assume a: "fillTreesFromStream sig to_nano st = Inl (e, st3) \<and> zero_field e"
  then have d: "descriptors st3 = descriptors st \<and> blocks st3 = blocks st"
    using decode_zero_field [of sig to_nano st e st3] by simp
  from d show "descriptors st3 = descriptors st" by simp
  from d show "blocks st3 = blocks st" by simp
  from a show "return_value (fillTreesFromStream sig to_nano st) = 0"
    by (simp add: return_value_def)
next
  assume "toks (inFile hs) = (if EASY_V_100 < version h then [Num a] else []) @
       Num b # Num c # Num d # Num tbn # Num ms # Num tdn # Num dms # rest \<and> \<not> eofbit (inFile hs)"
  then show "(\<exists>x. readHeader_v1 h hs = Inr x) \<longleftrightarrow>
       (of_nat ms \<noteq> (0 :: 64 word) \<and> of_nat dms \<noteq> (0 :: 64 word) \<and>
        of_nat tbn \<noteq> (0 :: 32 word) \<and> of_nat tdn \<noteq> (0 :: 32 word))"
    using readHeader_v1_fields [of hs h a b c d tbn ms tdn dms rest] by simp
next
  assume "toks (inFile hs) = Num a # Num b # Num c # Num d # Num ms # Num dms # Num tbn # Num tdn # rest \<and>
    \<not> eofbit (inFile hs)"
  then show "(\<exists>x. readHeader_v2 h hs = Inr x) \<longleftrightarrow>
       (of_nat ms \<noteq> (0 :: 64 word) \<and> of_nat dms \<noteq> (0 :: 64 word) \<and>
        of_nat tbn \<noteq> (0 :: 32 word) \<and> of_nat tdn \<noteq> (0 :: 32 word))"
    using readHeader_v2_fields [of hs a b c d ms dms tbn tdn rest h] by simp
next
  assume "readHeader_v1 h hs = Inl (e1, hs1)"
  then show "zero_field e1" by (simp add: readHeader_v1_failure)
next
  assume "readHeader_v2 h hs = Inl (e2, hs2)"
  then show "zero_field e2" by (simp add: readHeader_v2_failure)
qed

theorem header_validation_witness:
  "(\<exists>header st'. fillTreesFromStream 7 (\<lambda>f t. t) (start (nesting_trace 7) quiet) = Inr (header, st') \<and>
      signature header = 7 \<and> MIN_COMPATIBLE_VERSION \<le> version header \<and>
      total_blocks_number header \<noteq> 0 \<and> memory_size header \<noteq> 0 \<and>
      total_descriptors_number header \<noteq> 0 \<and> descriptors_memory_size header \<noteq> 0) \<and>
   (\<exists>st1. fillTreesFromStream 7 (\<lambda>f t. t) (start (nesting_trace 8) quiet) = Inl (WrongSignature, st1) \<and>
      toks (inFile st1) = tl (nesting_trace 8) \<and> descriptors st1 = [] \<and> blocks st1 = []) \<and>
   (\<exists>st2. fillTreesFromStream 7 (\<lambda>f t. t) (start [Num 7, Num 65535, Num 1] quiet)
        = Inl (IncompatibleVersion, st2) \<and>
      toks (inFile st2) = [Num 1] \<and> descriptors st2 = [] \<and> blocks st2 = []) \<and>
   (\<exists>st3. fillTreesFromStream 7 (\<lambda>f t. t) (start no_blocks_trace quiet) = Inl (BlocksNumberZero, st3) \<and>
      descriptors st3 = [] \<and> blocks st3 = [] \<and>
      return_value (fillTreesFromStream 7 (\<lambda>f t. t) (start no_blocks_trace quiet)) = 0) \<and>
   \<not> (\<exists>x. readHeader_v1 (new_EasyFileHeader\<lparr>version := 16973824\<rparr>)
           (start [Num 1, Num 0, Num 0, Num 100, Num 3, Num 0, Num 1, Num 30] quiet) = Inr x) \<and>
   \<not> (\<exists>x. readHeader_v2 (new_EasyFileHeader\<lparr>version := 33554432\<rparr>)
           (start [Num 1, Num 0, Num 0, Num 100, Num 63, Num 30, Num 3, Num 0] quiet) = Inr x) \<and>
   zero_field MemorySizeZero \<and> zero_field DescriptorsNumberZero"
proof -
  let ?id = "\<lambda>(f :: 64 word) (t :: timestamp_t). t"
  obtain st' where d: "fillTreesFromStream 7 ?id (start (nesting_trace 7) quiet)
      = Inr (\<lparr>signature = 7, version = 33554432, pid = 1, cpu_frequency = 0,
               begin_time = 0, end_time = 100, memory_size = 63, descriptors_memory_size = 30,
               total_blocks_number = 3, total_descriptors_number = 1\<rparr>, st')"
    using nesting_decoded [of 7 ?id] by auto
  have A: "\<exists>header st'. fillTreesFromStream 7 ?id (start (nesting_trace 7) quiet) = Inr (header, st') \<and>
      signature header = 7 \<and> MIN_COMPATIBLE_VERSION \<le> version header \<and>
      total_blocks_number header \<noteq> 0 \<and> memory_size header \<noteq> 0 \<and>
      total_descriptors_number header \<noteq> 0 \<and> descriptors_memory_size header \<noteq> 0"
    using header_validation [where st = "start (nesting_trace 7) quiet" and sig = 7 and to_nano = ?id
        and st' = st', THEN conjunct1, rule_format, OF d] d
    by blast
  have B: "\<exists>st1. fillTreesFromStream 7 ?id (start (nesting_trace 8) quiet) = Inl (WrongSignature, st1) \<and>
      toks (inFile st1) = tl (nesting_trace 8) \<and> descriptors st1 = [] \<and> blocks st1 = []"
    using header_validation [where st = "start (nesting_trace 8) quiet" and sig = 7 and to_nano = ?id
        and s = 8 and ?rest1.0 = "tl (nesting_trace 8)", THEN conjunct2, THEN conjunct1]
    by (simp add: start_def nesting_trace_def sample_header_def observed_def quiet_def)
  have C: "\<exists>st2. fillTreesFromStream 7 ?id (start [Num 7, Num 65535, Num 1] quiet)
        = Inl (IncompatibleVersion, st2) \<and>
      toks (inFile st2) = [Num 1] \<and> descriptors st2 = [] \<and> blocks st2 = []"
    using header_validation [where st = "start [Num 7, Num 65535, Num 1] quiet" and sig = 7 and to_nano = ?id
        and s = 7 and v = 65535 and ?rest2.0 = "[Num 1]", THEN conjunct2, THEN conjunct2, THEN conjunct1]
    by (simp add: start_def observed_def quiet_def MIN_COMPATIBLE_VERSION_def)
  obtain st3 where z: "fillTreesFromStream 7 ?id (start no_blocks_trace quiet) = Inl (BlocksNumberZero, st3)"
    by (simp add: decoder_defs no_blocks_trace_def sample_defs)
  have zf: "zero_field BlocksNumberZero" by (simp add: zero_field_def)
  have D: "\<exists>st3. fillTreesFromStream 7 ?id (start no_blocks_trace quiet) = Inl (BlocksNumberZero, st3) \<and>
      descriptors st3 = [] \<and> blocks st3 = [] \<and>
      return_value (fillTreesFromStream 7 ?id (start no_blocks_trace quiet)) = 0"
    using header_validation [where st = "start no_blocks_trace quiet" and sig = 7 and to_nano = ?id
        and e = BlocksNumberZero and ?st3.0 = st3,
        THEN conjunct2, THEN conjunct2, THEN conjunct2, THEN conjunct1] z zf
    by (simp add: start_def)
  have E: "\<not> (\<exists>x. readHeader_v1 (new_EasyFileHeader\<lparr>version := 16973824\<rparr>)
           (start [Num 1, Num 0, Num 0, Num 100, Num 3, Num 0, Num 1, Num 30] quiet) = Inr x)"
    using header_validation [where hs = "start [Num 1, Num 0, Num 0, Num 100, Num 3, Num 0, Num 1, Num 30] quiet"
        and h = "new_EasyFileHeader\<lparr>version := 16973824\<rparr>"
        and a = 1 and b = 0 and c = 0 and d = 100 and tbn = 3 and ms = 0 and tdn = 1 and dms = 30 and rest = "[]",
        THEN conjunct2, THEN conjunct2, THEN conjunct2, THEN conjunct2, THEN conjunct1]
    by (simp add: start_def EASY_V_100_def new_EasyFileHeader_def)
  have F: "\<not> (\<exists>x. readHeader_v2 (new_EasyFileHeader\<lparr>version := 33554432\<rparr>)
           (start [Num 1, Num 0, Num 0, Num 100, Num 63, Num 30, Num 3, Num 0] quiet) = Inr x)"
    using header_validation [where hs = "start [Num 1, Num 0, Num 0, Num 100, Num 63, Num 30, Num 3, Num 0] quiet"
        and h = "new_EasyFileHeader\<lparr>version := 33554432\<rparr>"
        and a = 1 and b = 0 and c = 0 and d = 100 and tbn = 3 and ms = 63 and tdn = 0 and dms = 30 and rest = "[]",
        THEN conjunct2, THEN conjunct2, THEN conjunct2, THEN conjunct2, THEN conjunct2, THEN conjunct1]
    by (simp add: start_def)
  obtain hs1 where g: "readHeader_v1 (new_EasyFileHeader\<lparr>version := 16973824\<rparr>)
           (start [Num 1, Num 0, Num 0, Num 100, Num 3, Num 0, Num 1, Num 30] quiet) = Inl (MemorySizeZero, hs1)"
    by (simp add: readHeader_v1_def get_num_def read_num_def Let_def start_def EASY_V_100_def EASY_V_130_def
          new_EasyFileHeader_def)
  have G: "zero_field MemorySizeZero"
    using header_validation [where hs = "start [Num 1, Num 0, Num 0, Num 100, Num 3, Num 0, Num 1, Num 30] quiet"
        and h = "new_EasyFileHeader\<lparr>version := 16973824\<rparr>" and ?e1.0 = MemorySizeZero and ?hs1.0 = hs1,
        THEN conjunct2, THEN conjunct2, THEN conjunct2, THEN conjunct2, THEN conjunct2, THEN conjunct2,
        THEN conjunct1, rule_format, OF g] .
  obtain hs2 where h: "readHeader_v2 (new_EasyFileHeader\<lparr>version := 33554432\<rparr>)
           (start [Num 1, Num 0, Num 0, Num 100, Num 63, Num 30, Num 3, Num 0] quiet) = Inl (DescriptorsNumberZero, hs2)"
    by (simp add: readHeader_v2_def get_num_def read_num_def Let_def start_def new_EasyFileHeader_def)
  have H: "zero_field DescriptorsNumberZero"
    using header_validation [where hs = "start [Num 1, Num 0, Num 0, Num 100, Num 63, Num 30, Num 3, Num 0] quiet"
        and h = "new_EasyFileHeader\<lparr>version := 33554432\<rparr>" and ?e2.0 = DescriptorsNumberZero and ?hs2.0 = hs2,
        THEN conjunct2, THEN conjunct2, THEN conjunct2, THEN conjunct2, THEN conjunct2, THEN conjunct2,
        THEN conjunct2, rule_format, OF h] .
  from A B C D E F G H show ?thesis by blast
qed


subsection \<open>Records that end before the trace begins\<close>

text \<open>
  C9, as the code has it. The size checks and the descriptor checks come before the test on
  the time. A block record that passes them (a length that is not zero and fits the pool, an
  id below \<open>total_descriptors_number\<close> whose table entry is not null) and whose converted end
  is strictly below the trace's begin time is read and dropped: when no cancellation is
  pending at the checkpoint that ends its iteration, the blocks, the trees and the block
  counter stay as they were and no error is raised. A block whose end is at or after the begin
  time is attached, so a block ending exactly at the begin time is kept: when its iteration
  succeeds the counter has grown by one and the block is the last child of the thread's root.
  A context-switch record is dropped when its end is at or below the begin time, so one that
  ends exactly at the begin time is dropped, and kept above it.
\<close>

theorem early_records_skipped:
  "(next_record st header sz d rest \<and> \<not> total_descriptors_number header \<le> m_id d \<and>
    unat (m_id d) < length (descriptors st) \<and> descriptors st ! unat (m_id d) = Some desc \<and>
    0 \<le> observed (progress st) \<and> m_end (converted to_nano header d) < bt \<longrightarrow>
      (\<exists>st'. read_block to_nano header bt tid st = Inr st' \<and> blocks st' = blocks st \<and>
         threaded_trees st' = threaded_trees st \<and> blocks_counter st' = blocks_counter st \<and>
         toks (inFile st') = rest)) \<and>
   (next_record st header sz d rest \<and> \<not> total_descriptors_number header \<le> m_id d \<and>
    unat (m_id d) < length (descriptors st) \<and> descriptors st ! unat (m_id d) = Some desc \<and>
    bt \<le> m_end (converted to_nano header d) \<and> read_block to_nano header bt tid st = Inr st1 \<longrightarrow>
      blocks_counter st1 = blocks_counter st + 1 \<and>
      last (root_children (root_of (threaded_trees st1) tid)) = blocks_counter st) \<and>
   (next_record st header sz d rest \<and> 0 \<le> observed (progress st) \<and>
    m_end (converted to_nano header d) \<le> bt \<longrightarrow>
      (\<exists>st'. read_cswitch to_nano header bt tid st = Inr st' \<and> blocks st' = blocks st \<and>
         threaded_trees st' = threaded_trees st \<and> blocks_counter st' = blocks_counter st \<and>
         toks (inFile st') = rest)) \<and>
   (next_record st header sz d rest \<and> 0 \<le> observed (progress st) \<and>
    bt < m_end (converted to_nano header d) \<longrightarrow>
      (\<exists>st'. read_cswitch to_nano header bt tid st = Inr st' \<and>
         blocks_counter st' = blocks_counter st + 1 \<and>
         sync (root_of (threaded_trees st') tid) = sync (root_of (threaded_trees st) tid) @ [blocks_counter st]))"
proof (intro conjI impI)
  assume a: "next_record st header sz d rest \<and> \<not> total_descriptors_number header \<le> m_id d \<and>
    unat (m_id d) < length (descriptors st) \<and> descriptors st ! unat (m_id d) = Some desc \<and>
    0 \<le> observed (progress st) \<and> m_end (converted to_nano header d) < bt"
  show "\<exists>st'. read_block to_nano header bt tid st = Inr st' \<and> blocks st' = blocks st \<and>
         threaded_trees st' = threaded_trees st \<and> blocks_counter st' = blocks_counter st \<and>
         toks (inFile st') = rest"
    by (rule read_block_skips [of st header sz d rest desc to_nano bt tid]) (use a in simp_all)
next
  assume a: "next_record st header sz d rest \<and> \<not> total_descriptors_number header \<le> m_id d \<and>
    unat (m_id d) < length (descriptors st) \<and> descriptors st ! unat (m_id d) = Some desc \<and>
    bt \<le> m_end (converted to_nano header d) \<and> read_block to_nano header bt tid st = Inr st1"
  have k: "blocks_counter st1 = blocks_counter st + 1 \<and>
      last (root_children (root_of (threaded_trees st1) tid)) = blocks_counter st"
    by (rule read_block_keeps [of st header sz d rest desc bt to_nano tid st1]) (use a in simp_all)
  from k show "blocks_counter st1 = blocks_counter st + 1" by simp
  from k show "last (root_children (root_of (threaded_trees st1) tid)) = blocks_counter st" by simp
next
  assume a: "next_record st header sz d rest \<and> 0 \<le> observed (progress st) \<and>
    m_end (converted to_nano header d) \<le> bt"
  show "\<exists>st'. read_cswitch to_nano header bt tid st = Inr st' \<and> blocks st' = blocks st \<and>
         threaded_trees st' = threaded_trees st \<and> blocks_counter st' = blocks_counter st \<and>
         toks (inFile st') = rest"
    by (rule read_cswitch_skips [of st header sz d rest to_nano bt tid]) (use a in simp_all)
next
  assume a: "next_record st header sz d rest \<and> 0 \<le> observed (progress st) \<and>
    bt < m_end (converted to_nano header d)"
  show "\<exists>st'. read_cswitch to_nano header bt tid st = Inr st' \<and>
         blocks_counter st' = blocks_counter st + 1 \<and>
         sync (root_of (threaded_trees st') tid) = sync (root_of (threaded_trees st) tid) @ [blocks_counter st]"
    by (rule read_cswitch_keeps [of st header sz d rest bt to_nano tid]) (use a in simp_all)
qed

lemmas record_defs = next_record_def converted_def reading_def start_def quiet_def observed_def
  sample_file_header_def sample_descriptor_def blk_def

theorem early_records_skipped_witness:
  "(\<exists>st'. read_block (\<lambda>t. t) sample_file_header 10 1 (reading [Num 21, Data (blk 0 9)]) = Inr st' \<and>
      blocks st' = [] \<and> threaded_trees st' = [] \<and> blocks_counter st' = 0 \<and> toks (inFile st') = []) \<and>
   (\<exists>st'. read_block (\<lambda>t. t) sample_file_header 10 1 (reading [Num 21, Data (blk 0 10)]) = Inr st' \<and>
      blocks_counter st' = 1 \<and> last (root_children (root_of (threaded_trees st') 1)) = 0) \<and>
   (\<exists>st'. read_cswitch (\<lambda>t. t) sample_file_header 10 1 (reading [Num 21, Data (blk 0 10)]) = Inr st' \<and>
      blocks st' = [] \<and> threaded_trees st' = [] \<and> blocks_counter st' = 0 \<and> toks (inFile st') = []) \<and>
   (\<exists>st'. read_cswitch (\<lambda>t. t) sample_file_header 10 1 (reading [Num 21, Data (blk 0 11)]) = Inr st' \<and>
      blocks_counter st' = 1 \<and> sync (root_of (threaded_trees st') 1) = [0])"
proof -
  have A: "\<exists>st'. read_block (\<lambda>t. t) sample_file_header 10 1 (reading [Num 21, Data (blk 0 9)]) = Inr st' \<and>
      blocks st' = [] \<and> threaded_trees st' = [] \<and> blocks_counter st' = 0 \<and> toks (inFile st') = []"
    using early_records_skipped [where st = "reading [Num 21, Data (blk 0 9)]" and header = sample_file_header
        and sz = 21 and d = "blk 0 9" and rest = "[]" and desc = sample_descriptor and to_nano = "\<lambda>t. t"
        and bt = 10 and tid = 1, THEN conjunct1]
    by (simp add: record_defs)
  obtain st1 where k: "read_block (\<lambda>t. t) sample_file_header 10 1 (reading [Num 21, Data (blk 0 10)]) = Inr st1"
    by (simp add: decoder_defs record_defs cong: if_cong)
  have B: "\<exists>st'. read_block (\<lambda>t. t) sample_file_header 10 1 (reading [Num 21, Data (blk 0 10)]) = Inr st' \<and>
      blocks_counter st' = 1 \<and> last (root_children (root_of (threaded_trees st') 1)) = 0"
    using early_records_skipped [where st = "reading [Num 21, Data (blk 0 10)]" and header = sample_file_header
        and sz = 21 and d = "blk 0 10" and rest = "[]" and desc = sample_descriptor and to_nano = "\<lambda>t. t"
        and bt = 10 and tid = 1 and ?st1.0 = st1, THEN conjunct2, THEN conjunct1] k
    by (simp add: record_defs)
  have C: "\<exists>st'. read_cswitch (\<lambda>t. t) sample_file_header 10 1 (reading [Num 21, Data (blk 0 10)]) = Inr st' \<and>
      blocks st' = [] \<and> threaded_trees st' = [] \<and> blocks_counter st' = 0 \<and> toks (inFile st') = []"
    using early_records_skipped [where st = "reading [Num 21, Data (blk 0 10)]" and header = sample_file_header
        and sz = 21 and d = "blk 0 10" and rest = "[]" and to_nano = "\<lambda>t. t"
        and bt = 10 and tid = 1, THEN conjunct2, THEN conjunct2, THEN conjunct1]
    by (simp add: record_defs)
  have D: "\<exists>st'. read_cswitch (\<lambda>t. t) sample_file_header 10 1 (reading [Num 21, Data (blk 0 11)]) = Inr st' \<and>
      blocks_counter st' = 1 \<and> sync (root_of (threaded_trees st') 1) = [0]"
    using early_records_skipped [where st = "reading [Num 21, Data (blk 0 11)]" and header = sample_file_header
        and sz = 21 and d = "blk 0 11" and rest = "[]" and to_nano = "\<lambda>t. t"
        and bt = 10 and tid = 1, THEN conjunct2, THEN conjunct2, THEN conjunct2]
    by (simp add: record_defs root_of_def new_BlocksTreeRoot_def)
  from A B C D show ?thesis by blast
qed


text \<open>
  C9, as the claim states it, fails: a block that ends before the trace begins is not skipped
  without an error when its descriptor id is unknown. The decode of such a trace ends with
  \<open>BadBlockId\<close> and returns 0.
\<close>

theorem early_record_error_counterexample:
  "decoded_error (fillTreesFromStream 7 (\<lambda>f t. t) (start early_bad_id_trace quiet)) = Some BadBlockId \<and>
   return_value (fillTreesFromStream 7 (\<lambda>f t. t) (start early_bad_id_trace quiet)) = 0"
proof -
  have "\<exists>st. fillTreesFromStream 7 (\<lambda>f t. t) (start early_bad_id_trace quiet) = Inl (BadBlockId, st)"
    by (simp add: decoder_defs early_bad_id_trace_def sample_defs)
  then show ?thesis
    by (auto simp: decoded_error_def return_value_def)
qed

subsection \<open>The descriptors written\<close>

text \<open>
  C10. With \<open>n\<close> the smaller of the table's size and \<open>descriptors_count\<close>, and \<open>k\<close> the
  length of the longest prefix below \<open>n\<close> whose entries are non-null and hold their own index
  as id, \<^verbatim>\<open>serializeDescriptors\<close> writes exactly the entries \<open>0 \<dots> k - 1\<close> and nothing after
  them, whatever the later entries hold, unless the entry \<open>k\<close> at which the prefix stops is
  a null entry below \<open>n\<close>: that entry is dereferenced, which is undefined behaviour
  (\<open>InvalidAccess\<close>). The decoder appends such a null entry for every descriptor record of
  length zero.
\<close>

theorem serializeDescriptors_matching_prefix:
  "(let n = min (length ds) (unat descriptors_count); k = length (matching_prefix ds n)
    in k \<le> n \<and> (\<forall>j<k. id_matches ds j) \<and> (k < n \<longrightarrow> \<not> id_matches ds k) \<and>
       serializeDescriptors L ds descriptors_count =
         (if k < n \<and> ds ! k = None then Inl InvalidAccess
          else Inr (concat (map (\<lambda>j. descriptor_fields L (the (ds ! j))) [0 ..< k])))) \<and>
   (toks (inFile st) = Num 0 # rest \<and> \<not> eofbit (inFile st) \<longrightarrow>
      (\<exists>st'. read_descriptor dms st = Inr st' \<and> descriptors st' = descriptors st @ [None] \<and>
         toks (inFile st') = rest))"
proof (intro conjI impI)
  let ?n = "min (length ds) (unat descriptors_count)"
  have le: "length (matching_prefix ds ?n) \<le> ?n"
    unfolding matching_prefix_def using length_takeWhile_le [of "id_matches ds" "[0 ..< ?n]"] by simp
  show "let n = min (length ds) (unat descriptors_count); k = length (matching_prefix ds n)
    in k \<le> n \<and> (\<forall>j<k. id_matches ds j) \<and> (k < n \<longrightarrow> \<not> id_matches ds k) \<and>
       serializeDescriptors L ds descriptors_count =
         (if k < n \<and> ds ! k = None then Inl InvalidAccess
          else Inr (concat (map (\<lambda>j. descriptor_fields L (the (ds ! j))) [0 ..< k])))"
    unfolding Let_def
    using le matching_prefix_all [of _ ds ?n] matching_prefix_stop [of ds ?n]
      serializeDescriptors_eq [of L ds descriptors_count, unfolded Let_def]
    by blast
next
  assume "toks (inFile st) = Num 0 # rest \<and> \<not> eofbit (inFile st)"
  then show "\<exists>st'. read_descriptor dms st = Inr st' \<and> descriptors st' = descriptors st @ [None] \<and>
         toks (inFile st') = rest"
    using read_descriptor_placeholder [of st rest dms] by simp
qed

lemma sample_table_size: "min (length sample_table) (unat (4 :: block_id_t)) = 4"
  by (simp add: sample_table_def)

lemma holed_table_size: "min (length holed_table) (unat (3 :: block_id_t)) = 3"
  by (simp add: holed_table_def)

lemma sample_table_prefix: "matching_prefix sample_table 4 = [0, 1]"
  by (simp add: matching_prefix_def id_matches_def sample_table_def sample_descriptor_def upt_conv_Cons)

lemma holed_table_prefix: "matching_prefix holed_table 3 = [0]"
  by (simp add: matching_prefix_def id_matches_def holed_table_def sample_descriptor_def upt_conv_Cons)

theorem serializeDescriptors_matching_prefix_witness:
  "serializeDescriptors sample_layout sample_table 4 =
     Inr (descriptor_fields sample_layout sample_descriptor @
          descriptor_fields sample_layout (sample_descriptor\<lparr>d_id := 1\<rparr>)) \<and>
   id_matches sample_table 3 \<and>
   serializeDescriptors sample_layout holed_table 3 = Inl InvalidAccess \<and>
   (\<exists>st'. read_descriptor 30 (start [Num 0, Num 30, Desc sample_descriptor] quiet) = Inr st' \<and>
      descriptors st' = [None] \<and> toks (inFile st') = [Num 30, Desc sample_descriptor])"
proof -
  have A: "serializeDescriptors sample_layout sample_table 4 =
     Inr (descriptor_fields sample_layout sample_descriptor @
          descriptor_fields sample_layout (sample_descriptor\<lparr>d_id := 1\<rparr>))"
    using serializeDescriptors_matching_prefix [where ds = sample_table and descriptors_count = 4
        and L = sample_layout, THEN conjunct1, unfolded Let_def sample_table_size sample_table_prefix]
    by (simp add: sample_table_def upt_conv_Cons)
  have B: "id_matches sample_table 3"
    by (simp add: id_matches_def sample_table_def sample_descriptor_def)
  have C: "serializeDescriptors sample_layout holed_table 3 = Inl InvalidAccess"
    using serializeDescriptors_matching_prefix [where ds = holed_table and descriptors_count = 3
        and L = sample_layout, THEN conjunct1, unfolded Let_def holed_table_size holed_table_prefix]
    by (simp add: holed_table_def)
  have D: "\<exists>st'. read_descriptor 30 (start [Num 0, Num 30, Desc sample_descriptor] quiet) = Inr st' \<and>
      descriptors st' = [None] \<and> toks (inFile st') = [Num 30, Desc sample_descriptor]"
    using serializeDescriptors_matching_prefix [where st = "start [Num 0, Num 30, Desc sample_descriptor] quiet"
        and rest = "[Num 30, Desc sample_descriptor]" and dms = 30, THEN conjunct2]
    by (simp add: start_def)
  from A B C D show ?thesis by blast
qed

subsection \<open>Range selection\<close>




subsection \<open>Encoding with the full window\<close>

lemma nesting_model:
  "\<exists>st. fillTreesFromStream 7 (\<lambda>f t. t) (start (nesting_trace 7) quiet)
      = Inr (\<lparr>signature = 7, version = 33554432, pid = 1, cpu_frequency = 0,
               begin_time = 0, end_time = 100, memory_size = 63, descriptors_memory_size = 30,
               total_blocks_number = 3, total_descriptors_number = 1\<rparr>, st) \<and>
     blocks st = nesting_blocks \<and> threaded_trees st = [(1, nesting_root)] \<and>
     descriptors st = [Some sample_descriptor] \<and> blocks_counter st = 3"
  by (simp add: decoder_defs nesting_trace_def sample_defs nesting_blocks_def nesting_root_def duration_def)

text \<open>
  C1: the encoder at the full window. When every top-level record and every context switch
  of every thread begins at or before the window's end, as they all do when the window is the
  trace's own, \<^verbatim>\<open>findRange\<close> finds no record beginning after the window and returns the empty
  range for each thread; \<^verbatim>\<open>writeTreesToStream\<close> then writes nothing and returns 0, with
  "Nothing to save" unless a cancellation was observed first. There is no output to decode, so
  the round trip of the claim does not exist.
\<close>

theorem full_window_nothing_written:
  assumes "\<forall>(tid, tree)\<in>set trees.
             (\<forall>c\<in>set (root_children tree). m_begin (node (getter c)) \<le> et) \<and>
             (\<forall>c\<in>set (sync tree). m_begin (node (getter c)) \<le> et)"
  shows "(\<exists>e st'. writeTreesToStream (Suc fuel) L sig ver dsz ds dc trees getter bt et p st
                     = Some (Inl (e, st')) \<and>
                  (e = NothingToSave \<or> e = Interrupted) \<and> str st' = str st) \<and>
         (pending (wprogress st) = [] \<and> 0 \<le> cell (wprogress st) \<longrightarrow>
            write_result (writeTreesToStream (Suc fuel) L sig ver dsz ds dc trees getter bt et p st)
              = Some (Inl NothingToSave))"
proof -
  let ?acc = "\<lparr>total = \<lparr>usedMemorySize = 0, blocksCount = 0\<rparr>, beginTime = bt,
                endTime = et, block_ranges = Map.empty\<rparr>"
  have "blocksCount (total ?acc) = 0" by simp
  from calculate_ranges_nothing [where f = fuel and L = L and ds = ds and bt = bt and n = "length trees"
      and i = 0 and st = st, OF assms this]
  show ?thesis
    by (auto simp: writeTreesToStream_def write_result_def split: option.splits sum.splits prod.splits)
qed

text \<open>The model decoded from the trace of three nested blocks is an instance: decoding returns
  three blocks, and encoding that model with the times of its header returns 0 with
  "Nothing to save".\<close>

theorem full_window_nothing_written_witness:
  "\<exists>header st. fillTreesFromStream 7 (\<lambda>f t. t) (start (nesting_trace 7) quiet) = Inr (header, st) \<and>
      blocks_counter st = 3 \<and>
      write_result (writeTreesToStream 1 sample_layout 7 33554432 30 (descriptors st)
          (total_descriptors_number header) (threaded_trees st) (\<lambda>i. blocks st ! i)
          (begin_time header) (end_time header) 1 w0) = Some (Inl NothingToSave)"
proof -
  from nesting_model obtain st where
    d: "fillTreesFromStream 7 (\<lambda>f t. t) (start (nesting_trace 7) quiet)
      = Inr (\<lparr>signature = 7, version = 33554432, pid = 1, cpu_frequency = 0,
               begin_time = 0, end_time = 100, memory_size = 63, descriptors_memory_size = 30,
               total_blocks_number = 3, total_descriptors_number = 1\<rparr>, st)"
    and m: "blocks st = nesting_blocks" "threaded_trees st = [(1, nesting_root)]"
      "descriptors st = [Some sample_descriptor]" "blocks_counter st = 3"
    by blast
  have "write_result (writeTreesToStream (Suc 0) sample_layout 7 33554432 30 [Some sample_descriptor] 1
          [(1, nesting_root)] (\<lambda>i. nesting_blocks ! i) 0 100 1 w0) = Some (Inl NothingToSave)"
    using full_window_nothing_written [where trees = "[(1, nesting_root)]"
        and getter = "\<lambda>i. nesting_blocks ! i" and et = 100 and bt = 0 and fuel = 0
        and L = sample_layout and sig = 7 and ver = 33554432 and dsz = 30
        and ds = "[Some sample_descriptor]" and dc = 1 and p = 1 and st = w0, THEN conjunct2]
    by (simp add: nesting_root_def nesting_blocks_def blk_def w0_def quiet_def)
  with d m show ?thesis by simp
qed

end
